theory Spec2Isabelle
  imports Main "HOL-Library.Char_ord" "HOL-Library.Monad_Syntax" "HOL-Library.Word"
begin

section \<open>The scanner (scanner.c)\<close>

subsection \<open>Tokens\<close>

text \<open>
  Modelled from the spec: the enum \<^verbatim>\<open>TokenType\<close> is declared in \<^verbatim>\<open>scanner.h\<close>, which is
  not among the sources. Its members here are the token kinds named in \<^verbatim>\<open>scanner.c\<close>
  and one kind for each keyword of the keyword set of the specification. The keyword
  table itself (\<^verbatim>\<open>lex.def\<close>, with \<^verbatim>\<open>checkKeyword\<close>) is the parameter \<open>kw\<close> of the scanner:
  it maps the text of an identifier to the kind of the keyword, if it is one.
\<close>

datatype TokenType =
    TOKEN_LEFT_PAREN | TOKEN_RIGHT_PAREN | TOKEN_LEFT_BRACE | TOKEN_RIGHT_BRACE
  | TOKEN_SEMICOLON | TOKEN_COMMA | TOKEN_DOT | TOKEN_MINUS | TOKEN_PLUS
  | TOKEN_SLASH | TOKEN_STAR | TOKEN_QUESTION | TOKEN_COLON
  | TOKEN_BANG | TOKEN_BANG_EQUAL | TOKEN_EQUAL | TOKEN_EQUAL_EQUAL
  | TOKEN_LESS | TOKEN_LESS_EQUAL | TOKEN_GREATER | TOKEN_GREATER_EQUAL
  | TOKEN_IDENTIFIER | TOKEN_STRING | TOKEN_NUMBER
  | TOKEN_AND | TOKEN_CLASS | TOKEN_ELSE | TOKEN_FALSE | TOKEN_FOR | TOKEN_FUN
  | TOKEN_IF | TOKEN_NIL | TOKEN_OR | TOKEN_PRINT | TOKEN_RETURN | TOKEN_SUPER
  | TOKEN_THIS | TOKEN_TRUE | TOKEN_VAR | TOKEN_WHILE
  | TOKEN_ERROR | TOKEN_EOF

text \<open>
  A \<^verbatim>\<open>const char*\<close> held by a token: either the address of a byte of the source text
  (its offset from the first byte), or the address of a string literal of the scanner
  itself (the literal stands for its address).
\<close>

datatype char_ptr = InSource nat | InLiteral string

text \<open>
  The C \<^verbatim>\<open>int\<close> fields \<^verbatim>\<open>length\<close> and \<^verbatim>\<open>line\<close> are integers here; the conversion
  \<^verbatim>\<open>(int)\<close> of a pointer difference is the identity for every source shorter than
  \<^verbatim>\<open>INT_MAX\<close> bytes.
\<close>

record Token =
  token_type :: TokenType
  token_start :: char_ptr
  token_length :: int
  token_line :: int

record Scanner =
  start :: nat
  current :: nat
  line :: int

text \<open>
  The source is a NUL-terminated C string. \<open>src\<close> holds the bytes in front of the
  terminator; the byte at offset \<open>length src\<close> is the terminator.
\<close>

definition char_at :: "string \<Rightarrow> nat \<Rightarrow> char" where
  "char_at src i = (if i < length src then src ! i else CHR 0x00)"

text \<open>\<^verbatim>\<open>strlen\<close>: the number of bytes in front of the first NUL.\<close>

definition strlen :: "string \<Rightarrow> nat" where
  "strlen src = length (takeWhile (\<lambda>c. c \<noteq> CHR 0x00) src)"

definition initScanner :: "Scanner" where
  "initScanner = \<lparr>start = 0, current = 0, line = 1\<rparr>"

definition isAlpha :: "char \<Rightarrow> bool" where
  "isAlpha c \<longleftrightarrow> (CHR ''a'' \<le> c \<and> c \<le> CHR ''z'') \<or> (CHR ''A'' \<le> c \<and> c \<le> CHR ''Z'') \<or> c = CHR ''_''"

definition isDigit :: "char \<Rightarrow> bool" where
  "isDigit c \<longleftrightarrow> CHR ''0'' \<le> c \<and> c \<le> CHR ''9''"

definition isAtEnd :: "string \<Rightarrow> Scanner \<Rightarrow> bool" where
  "isAtEnd src s \<longleftrightarrow> char_at src (current s) = CHR 0x00"

definition advance :: "Scanner \<Rightarrow> Scanner" where
  "advance s = s\<lparr>current := current s + 1\<rparr>"

definition peek :: "string \<Rightarrow> Scanner \<Rightarrow> char" where
  "peek src s = char_at src (current s)"

definition peekNext :: "string \<Rightarrow> Scanner \<Rightarrow> char" where
  "peekNext src s = (if isAtEnd src s then CHR 0x00 else char_at src (current s + 1))"

definition match :: "string \<Rightarrow> char \<Rightarrow> Scanner \<Rightarrow> bool \<times> Scanner" where
  "match src expected s =
     (if isAtEnd src s then (False, s)
      else if char_at src (current s) \<noteq> expected then (False, s)
      else (True, s\<lparr>current := current s + 1\<rparr>))"

definition makeToken :: "TokenType \<Rightarrow> Scanner \<Rightarrow> Token" where
  "makeToken ty s =
     \<lparr>token_type = ty, token_start = InSource (start s),
      token_length = int (current s) - int (start s), token_line = line s\<rparr>"

definition errorToken :: "string \<Rightarrow> Scanner \<Rightarrow> Token" where
  "errorToken message s =
     \<lparr>token_type = TOKEN_ERROR, token_start = InLiteral message,
      token_length = int (strlen message), token_line = line s\<rparr>"

subsection \<open>The loops\<close>

text \<open>
  Every \<^verbatim>\<open>while\<close> and \<^verbatim>\<open>for (;;)\<close> of the scanner is a recursive function in the
  option monad: \<open>None\<close> is a loop that does not return.
\<close>

text \<open>\<^verbatim>\<open>while (peek() != '\n' && !isAtEnd()) advance();\<close>\<close>

partial_function (option) skipComment :: "string \<Rightarrow> Scanner \<Rightarrow> Scanner option" where
  "skipComment src s =
     (if peek src s \<noteq> CHR 0x0A \<and> \<not> isAtEnd src s then skipComment src (advance s)
      else Some s)"

partial_function (option) skipWhitespace :: "string \<Rightarrow> Scanner \<Rightarrow> Scanner option" where
  "skipWhitespace src s =
     (if peek src s = CHR '' '' \<or> peek src s = CHR 0x0D \<or> peek src s = CHR 0x09
        then skipWhitespace src (advance s)
      else if peek src s = CHR 0x0A
        then skipWhitespace src (advance (s\<lparr>line := line s + 1\<rparr>))
      else if peek src s = CHR ''/''
        then (if peekNext src s = CHR ''/''
              then Option.bind (skipComment src s) (skipWhitespace src)
              else Some s)
      else Some s)"

declare skipComment.simps [code]
declare skipWhitespace.simps [code]

definition identifierType :: "(string \<Rightarrow> TokenType option) \<Rightarrow> string \<Rightarrow> Scanner \<Rightarrow> TokenType" where
  "identifierType kw src s =
     (case kw (take (current s - start s) (drop (start s) src)) of
        Some t \<Rightarrow> t
      | None \<Rightarrow> TOKEN_IDENTIFIER)"

text \<open>\<^verbatim>\<open>while (isAlpha(peek()) || isDigit(peek())) advance();\<close>\<close>

partial_function (option) identifierLoop :: "string \<Rightarrow> Scanner \<Rightarrow> Scanner option" where
  "identifierLoop src s =
     (if isAlpha (peek src s) \<or> isDigit (peek src s) then identifierLoop src (advance s)
      else Some s)"

declare identifierLoop.simps [code]

definition identifier_tok :: "(string \<Rightarrow> TokenType option) \<Rightarrow> string \<Rightarrow> Scanner \<Rightarrow> (Token \<times> Scanner) option" where
  "identifier_tok kw src s =
     Option.bind (identifierLoop src s) (\<lambda>s'. Some (makeToken (identifierType kw src s') s', s'))"

definition isHex :: "char \<Rightarrow> bool" where
  "isHex c \<longleftrightarrow> (CHR ''a'' \<le> c \<and> c \<le> CHR ''f'') \<or> (CHR ''A'' \<le> c \<and> c \<le> CHR ''F'')"

text \<open>\<^verbatim>\<open>while (isDigit(peek()) || isHex(peek())) advance();\<close>\<close>

partial_function (option) hexLoop :: "string \<Rightarrow> Scanner \<Rightarrow> Scanner option" where
  "hexLoop src s =
     (if isDigit (peek src s) \<or> isHex (peek src s) then hexLoop src (advance s)
      else Some s)"

text \<open>\<^verbatim>\<open>while (isDigit(peek())) advance();\<close>\<close>

partial_function (option) digitLoop :: "string \<Rightarrow> Scanner \<Rightarrow> Scanner option" where
  "digitLoop src s =
     (if isDigit (peek src s) then digitLoop src (advance s) else Some s)"

declare hexLoop.simps [code]
declare digitLoop.simps [code]

definition number_tok :: "string \<Rightarrow> Scanner \<Rightarrow> (Token \<times> Scanner) option" where
  "number_tok src s =
     (if char_at src (current s - 1) = CHR ''0''
         \<and> (peek src s = CHR ''x'' \<or> peek src s = CHR ''X'')
      then Option.bind (hexLoop src (advance s)) (\<lambda>s'. Some (makeToken TOKEN_NUMBER s', s'))
      else Option.bind (digitLoop src s) (\<lambda>s1.
             if peek src s1 = CHR ''.'' \<and> isDigit (peekNext src s1)
             then Option.bind (digitLoop src (advance s1))
                    (\<lambda>s'. Some (makeToken TOKEN_NUMBER s', s'))
             else Some (makeToken TOKEN_NUMBER s1, s1)))"

text \<open>
  \<^verbatim>\<open>while (peek() != '"' && !isAtEnd()) { if (peek() == '\n') scanner.line++; advance(); }\<close>
\<close>

partial_function (option) stringLoop :: "string \<Rightarrow> Scanner \<Rightarrow> Scanner option" where
  "stringLoop src s =
     (if peek src s \<noteq> CHR 0x22 \<and> \<not> isAtEnd src s
      then stringLoop src (advance (if peek src s = CHR 0x0A then s\<lparr>line := line s + 1\<rparr> else s))
      else Some s)"

declare stringLoop.simps [code]

definition string_tok :: "string \<Rightarrow> Scanner \<Rightarrow> (Token \<times> Scanner) option" where
  "string_tok src s =
     Option.bind (stringLoop src s) (\<lambda>s1.
       if isAtEnd src s1 then Some (errorToken ''Unterminated string.'' s1, s1)
       else Some (makeToken TOKEN_STRING (advance s1), advance s1))"

definition matchToken :: "string \<Rightarrow> char \<Rightarrow> TokenType \<Rightarrow> TokenType \<Rightarrow> Scanner \<Rightarrow> Token \<times> Scanner" where
  "matchToken src expected yes no s =
     (case match src expected s of (b, s') \<Rightarrow> (makeToken (if b then yes else no) s', s'))"

definition scanToken :: "(string \<Rightarrow> TokenType option) \<Rightarrow> string \<Rightarrow> Scanner \<Rightarrow> (Token \<times> Scanner) option" where
  "scanToken kw src s0 =
     Option.bind (skipWhitespace src s0) (\<lambda>s1.
       let s2 = s1\<lparr>start := current s1\<rparr> in
       if isAtEnd src s2 then Some (makeToken TOKEN_EOF s2, s2)
       else
         let c = char_at src (current s2); s = advance s2 in
         if isAlpha c then identifier_tok kw src s
         else if isDigit c then number_tok src s
         else if c = CHR ''('' then Some (makeToken TOKEN_LEFT_PAREN s, s)
         else if c = CHR '')'' then Some (makeToken TOKEN_RIGHT_PAREN s, s)
         else if c = CHR ''{'' then Some (makeToken TOKEN_LEFT_BRACE s, s)
         else if c = CHR ''}'' then Some (makeToken TOKEN_RIGHT_BRACE s, s)
         else if c = CHR '';'' then Some (makeToken TOKEN_SEMICOLON s, s)
         else if c = CHR '','' then Some (makeToken TOKEN_COMMA s, s)
         else if c = CHR ''.'' then Some (makeToken TOKEN_DOT s, s)
         else if c = CHR ''-'' then Some (makeToken TOKEN_MINUS s, s)
         else if c = CHR ''+'' then Some (makeToken TOKEN_PLUS s, s)
         else if c = CHR ''/'' then Some (makeToken TOKEN_SLASH s, s)
         else if c = CHR ''*'' then Some (makeToken TOKEN_STAR s, s)
         else if c = CHR ''?'' then Some (makeToken TOKEN_QUESTION s, s)
         else if c = CHR '':'' then Some (makeToken TOKEN_COLON s, s)
         else if c = CHR ''!'' then Some (matchToken src (CHR ''='') TOKEN_BANG_EQUAL TOKEN_BANG s)
         else if c = CHR ''='' then Some (matchToken src (CHR ''='') TOKEN_EQUAL_EQUAL TOKEN_EQUAL s)
         else if c = CHR ''<'' then Some (matchToken src (CHR ''='') TOKEN_LESS_EQUAL TOKEN_LESS s)
         else if c = CHR ''>'' then Some (matchToken src (CHR ''='') TOKEN_GREATER_EQUAL TOKEN_GREATER s)
         else if c = CHR 0x22 then string_tok src s
         else Some (errorToken ''Unexpected character.'' s, s))"

subsection \<open>Token slices\<close>

text \<open>The bytes a token's \<open>(start, length)\<close> pair denotes.\<close>

definition token_text :: "string \<Rightarrow> Token \<Rightarrow> string" where
  "token_text src t =
     (case token_start t of
        InSource i \<Rightarrow> take (nat (token_length t)) (drop i src)
      | InLiteral m \<Rightarrow> take (nat (token_length t)) m)"


text \<open>The cursor moved forward, not past the terminator, and \<open>start\<close> was kept.\<close>

definition advances :: "string \<Rightarrow> Scanner \<Rightarrow> Scanner \<Rightarrow> bool" where
  "advances src s s' \<longleftrightarrow> current s \<le> current s' \<and> current s' \<le> strlen src \<and> start s' = start s"

text \<open>A token built by \<open>makeToken\<close> from the scanner state \<open>s'\<close>: the bytes from \<open>start\<close> to \<open>current\<close>.\<close>

definition source_slice :: "string \<Rightarrow> Token \<Rightarrow> Scanner \<Rightarrow> bool" where
  "source_slice src t s' \<longleftrightarrow>
     t = makeToken (token_type t) s' \<and> start s' \<le> current s' \<and> current s' \<le> strlen src"

text \<open>What a call of \<open>scanToken\<close> from the state \<open>s\<close> returns: a slice of the source or an error message.\<close>

definition scanned :: "string \<Rightarrow> Scanner \<Rightarrow> (Token \<times> Scanner) option \<Rightarrow> bool" where
  "scanned src s r \<longleftrightarrow>
     (\<exists>t s'. r = Some (t, s') \<and> current s \<le> current s' \<and> current s' \<le> strlen src
        \<and> (source_slice src t s'
            \<or> t = errorToken ''Unterminated string.'' s'
            \<or> t = errorToken ''Unexpected character.'' s'))"

section \<open>The virtual machine (vm.c)\<close>

subsection \<open>Values, objects and the machine state\<close>

text \<open>
  Modelled from the spec: \<^verbatim>\<open>value.h\<close> is not among the sources. A value is a tagged sum
  of nil, a boolean, a number and a reference to a heap object. The number is a C
  \<^verbatim>\<open>double\<close>; its type is the parameter \<open>'n\<close>, and the arithmetic of the C compiler on it
  is part of the \<open>platform\<close> below. An object reference is the address of the object.
\<close>

datatype 'n Value = NIL_VAL | BOOL_VAL bool | NUMBER_VAL 'n | OBJ_VAL nat

text \<open>
  Modelled from the spec: \<^verbatim>\<open>opcodes.h\<close> is not among the sources. The opcodes are the
  ones that \<^verbatim>\<open>run\<close> dispatches on (the instruction set of the specification), in the
  order of its cases. The byte of each opcode is given by \<open>decode\<close> of the \<open>platform\<close>
  below.
\<close>

datatype OpCode =
    OP_CONSTANT | OP_NIL | OP_TRUE | OP_FALSE | OP_POP
  | OP_GET_LOCAL | OP_SET_LOCAL | OP_GET_GLOBAL | OP_DEFINE_GLOBAL | OP_SET_GLOBAL
  | OP_GET_UPVALUE | OP_SET_UPVALUE | OP_GET_PROPERTY | OP_SET_PROPERTY | OP_GET_SUPER
  | OP_EQUAL | OP_GREATER | OP_LESS | OP_ADD | OP_SUBTRACT | OP_MULTIPLY | OP_DIVIDE
  | OP_NOT | OP_NEGATE | OP_PRINT | OP_JUMP | OP_JUMP_IF_FALSE | OP_LOOP
  | OP_CALL | OP_INVOKE | OP_SUPER_INVOKE | OP_CLOSURE | OP_CLOSE_UPVALUE | OP_RETURN
  | OP_CLASS | OP_INHERIT | OP_METHOD

text \<open>The results that \<^verbatim>\<open>vm.c\<close> returns (the enum is declared in \<^verbatim>\<open>vm.h\<close>).\<close>

datatype InterpretResult = INTERPRET_OK | INTERPRET_COMPILE_ERROR | INTERPRET_RUNTIME_ERROR

text \<open>The four native functions of \<^verbatim>\<open>vm.c\<close>; an \<^verbatim>\<open>ObjNative\<close> holds a pointer to one of them.\<close>

datatype NativeFn = clockNative | exitNative | gcNative | gcHeapSizeNative

text \<open>
  A \<^verbatim>\<open>Value*\<close>: the address of a slot of the value stack (its index), or the address of
  the \<^verbatim>\<open>closed\<close> field of the upvalue object at the given address.
\<close>

datatype value_ptr = StackSlot nat | ClosedField nat

text \<open>
  Modelled from the spec: \<^verbatim>\<open>chunk.h\<close> and \<^verbatim>\<open>object.h\<close> are not among the sources. A
  chunk is the byte code, the line of every byte and the constant pool. The objects are
  the variants of the data model of the specification; a table is a finite map from the
  address of an interned string to a value, a pointer that may be \<^verbatim>\<open>NULL\<close> is an option.
\<close>

datatype 'n Chunk = Chunk (code: "8 word list") (lines: "int list") (constants: "'n Value list")

datatype 'n Obj =
    ObjString string
  | ObjFunction int nat "nat option" "'n Chunk"
      \<comment> \<open>arity, upvalueCount, name, chunk\<close>
  | ObjNative NativeFn
  | ObjClosure nat "nat option list"
      \<comment> \<open>function, upvalues (their number is upvalueCount)\<close>
  | ObjUpvalue value_ptr "'n Value" "nat option"
      \<comment> \<open>location, closed, next\<close>
  | ObjClass nat "nat \<rightharpoonup> 'n Value"
      \<comment> \<open>name, methods\<close>
  | ObjInstance nat "nat \<rightharpoonup> 'n Value"
      \<comment> \<open>klass, fields\<close>
  | ObjBoundMethod "'n Value" nat
      \<comment> \<open>receiver, method\<close>

text \<open>
  Modelled from the spec: \<^verbatim>\<open>vm.h\<close> is not among the sources; the fields of a frame and
  of the machine are those that \<^verbatim>\<open>vm.c\<close> uses. A call frame: \<open>closure\<close> is the address of
  the closure, \<open>ip\<close> the offset of the next byte in the code of the closure's function,
  \<open>slots\<close> the index of the frame's first stack slot.
\<close>

record CallFrame =
  closure :: nat
  ip :: nat
  slots :: nat

text \<open>
  Modelled from the spec: the global \<^verbatim>\<open>VM vm\<close> (\<^verbatim>\<open>vm.h\<close>). \<open>frames\<close> and \<open>stack\<close> are the
  two arrays, of \<^verbatim>\<open>FRAMES_MAX\<close> and \<^verbatim>\<open>STACK_MAX\<close> elements; \<open>stackTop\<close> is the index of the first free slot. \<open>heap\<close> holds
  the objects, each at its address. \<open>out\<close> and \<open>err\<close> are what has been written to the
  standard output and to the standard error stream. The fields of the collector
  (\<^verbatim>\<open>bytesAllocated\<close>, \<^verbatim>\<open>nextGC\<close>, the gray stack) belong to \<^verbatim>\<open>memory.c\<close> and are left out.
\<close>

record 'n VM =
  frames :: "CallFrame list"
  frameCount :: int
  stack :: "'n Value list"
  stackTop :: nat
  globals :: "nat \<rightharpoonup> 'n Value"
  strings :: "string \<rightharpoonup> nat"
  initString :: "nat option"
  openUpvalues :: "nat option"
  heap :: "'n Obj list"
  out :: string
  err :: string

text \<open>
  What \<^verbatim>\<open>vm.c\<close> takes from files that are not among the sources, from the C compiler
  and from the C library:
  \<^item> \<open>decode\<close>: the numbering of the opcodes (\<^verbatim>\<open>opcodes.h\<close>);
  \<^item> \<open>num_add\<close> to \<open>num_equal\<close>: the operators \<^verbatim>\<open>+ - * / < > -\<close> and \<^verbatim>\<open>==\<close> on \<^verbatim>\<open>double\<close>;
  \<^item> \<open>double_as_value\<close>: the value stored when a \<^verbatim>\<open>double\<close> is assigned to a \<^verbatim>\<open>Value\<close>
    (\<^verbatim>\<open>OP_NEGATE\<close> pushes the \<^verbatim>\<open>double\<close> itself, without \<^verbatim>\<open>NUMBER_VAL\<close>);
  \<^item> \<open>printValue\<close>: the text that \<^verbatim>\<open>printValue\<close> writes (\<^verbatim>\<open>value.c\<close>, \<^verbatim>\<open>object.c\<close>);
  \<^item> \<open>clock_seconds\<close>: \<^verbatim>\<open>(double)clock() / CLOCKS_PER_SEC\<close>;
  \<^item> \<open>bytesAllocated\<close>, \<open>collectGarbage\<close>, \<open>double_of_int\<close>: the allocation counter and
    the collector of \<^verbatim>\<open>memory.c\<close>, and the conversion \<^verbatim>\<open>(double)\<close> of an integer;
  \<^item> \<open>compile\<close>: the compiler (\<^verbatim>\<open>compiler.c\<close>): the address of the compiled function,
    or \<^verbatim>\<open>NULL\<close>, and the machine with the objects the compiler has allocated.
\<close>

record 'n platform =
  decode :: "8 word \<Rightarrow> OpCode option"
  num_add :: "'n \<Rightarrow> 'n \<Rightarrow> 'n"
  num_sub :: "'n \<Rightarrow> 'n \<Rightarrow> 'n"
  num_mul :: "'n \<Rightarrow> 'n \<Rightarrow> 'n"
  num_div :: "'n \<Rightarrow> 'n \<Rightarrow> 'n"
  num_less :: "'n \<Rightarrow> 'n \<Rightarrow> bool"
  num_greater :: "'n \<Rightarrow> 'n \<Rightarrow> bool"
  num_neg :: "'n \<Rightarrow> 'n"
  num_equal :: "'n \<Rightarrow> 'n \<Rightarrow> bool"
  double_as_value :: "'n \<Rightarrow> 'n Value"
  printValue :: "'n Obj list \<Rightarrow> 'n Value \<Rightarrow> string"
  clock_seconds :: "'n"
  bytesAllocated :: "'n VM \<Rightarrow> int"
  collectGarbage :: "'n VM \<Rightarrow> 'n VM"
  double_of_int :: "int \<Rightarrow> 'n"
  compile :: "string \<Rightarrow> 'n VM \<Rightarrow> nat option \<times> 'n VM"

text \<open>The registers of \<^verbatim>\<open>run\<close>: the locals \<^verbatim>\<open>frame\<close>, \<^verbatim>\<open>stackStart\<close>, \<^verbatim>\<open>ip\<close> and \<^verbatim>\<open>fn\<close>.\<close>

record regs =
  frame :: nat
  stackStart :: nat
  reg_ip :: nat
  fn :: nat

text \<open>
  One pass through the dispatch loop either goes on to the next instruction or leaves
  \<^verbatim>\<open>run\<close> with a result.
\<close>

datatype 'n step = Dispatch "'n VM" regs | Finished InterpretResult "'n VM"

text \<open>
  Throughout, a function of the machine returns an option: \<open>None\<close> stands for a run that
  has no defined result in C (a read or write outside an array, the use of a \<^verbatim>\<open>NULL\<close> or
  dangling pointer, a cast to the wrong object type) or that does not return (the
  \<^verbatim>\<open>exit\<close> native, a loop without end).
\<close>

subsection \<open>Stack and heap access\<close>

definition resetStack :: "'n VM \<Rightarrow> 'n VM" where
  "resetStack vm = vm\<lparr>stackTop := 0, frameCount := 0, openUpvalues := None\<rparr>"

definition push :: "'n Value \<Rightarrow> 'n VM \<Rightarrow> 'n VM option" where
  "push v vm =
     (if stackTop vm < length (stack vm)
      then Some (vm\<lparr>stack := (stack vm)[stackTop vm := v], stackTop := stackTop vm + 1\<rparr>)
      else None)"

definition stack_get :: "'n VM \<Rightarrow> nat \<Rightarrow> 'n Value option" where
  "stack_get vm i = (if i < length (stack vm) then Some (stack vm ! i) else None)"

definition stack_set :: "nat \<Rightarrow> 'n Value \<Rightarrow> 'n VM \<Rightarrow> 'n VM option" where
  "stack_set i v vm =
     (if i < length (stack vm) then Some (vm\<lparr>stack := (stack vm)[i := v]\<rparr>) else None)"

definition pop :: "'n VM \<Rightarrow> ('n Value \<times> 'n VM) option" where
  "pop vm =
     (if 0 < stackTop vm
      then do { v \<leftarrow> stack_get vm (stackTop vm - 1); Some (v, vm\<lparr>stackTop := stackTop vm - 1\<rparr>) }
      else None)"

text \<open>\<^verbatim>\<open>DROP()\<close>: \<^verbatim>\<open>--vm.stackTop\<close>.\<close>

definition DROP :: "'n VM \<Rightarrow> 'n VM option" where
  "DROP vm = (if 0 < stackTop vm then Some (vm\<lparr>stackTop := stackTop vm - 1\<rparr>) else None)"

text \<open>\<^verbatim>\<open>peek(distance)\<close>: \<^verbatim>\<open>vm.stackTop[-1 - distance]\<close>; \<^verbatim>\<open>PEEK()\<close> and \<^verbatim>\<open>PEEK2()\<close> are distance 0 and 1.\<close>

definition peek_vm :: "nat \<Rightarrow> 'n VM \<Rightarrow> 'n Value option" where
  "peek_vm distance vm =
     (if distance < stackTop vm then stack_get vm (stackTop vm - 1 - distance) else None)"

definition obj_at :: "'n VM \<Rightarrow> nat \<Rightarrow> 'n Obj option" where
  "obj_at vm a = (if a < length (heap vm) then Some (heap vm ! a) else None)"

text \<open>
  Modelled from the spec: the allocator (\<^verbatim>\<open>memory.c\<close>, \<^verbatim>\<open>object.c\<close>) is not among the
  sources. A new object gets the next free address and no object moves. The collector
  frees unreachable objects only and is not modelled.
\<close>

definition allocate :: "'n Obj \<Rightarrow> 'n VM \<Rightarrow> nat \<times> 'n VM" where
  "allocate ob vm = (length (heap vm), vm\<lparr>heap := heap vm @ [ob]\<rparr>)"

text \<open>
  Modelled from the spec: the constructors of \<^verbatim>\<open>object.c\<close>. A new closure has
  \<^verbatim>\<open>upvalueCount\<close> upvalue pointers, all \<^verbatim>\<open>NULL\<close>; a new upvalue is open on the given slot;
  a new class has no method and a new instance no field.
\<close>

definition newClosure :: "nat \<Rightarrow> 'n VM \<Rightarrow> (nat \<times> 'n VM) option" where
  "newClosure function vm =
     (case obj_at vm function of
        Some (ObjFunction arity upvalueCount name chunk) \<Rightarrow>
          Some (allocate (ObjClosure function (replicate upvalueCount None)) vm)
      | _ \<Rightarrow> None)"

definition newUpvalue :: "value_ptr \<Rightarrow> 'n VM \<Rightarrow> nat \<times> 'n VM" where
  "newUpvalue slot vm = allocate (ObjUpvalue slot NIL_VAL None) vm"

definition newClass :: "nat \<Rightarrow> 'n VM \<Rightarrow> nat \<times> 'n VM" where
  "newClass name vm = allocate (ObjClass name Map.empty) vm"

definition newInstance :: "nat \<Rightarrow> 'n VM \<Rightarrow> nat \<times> 'n VM" where
  "newInstance klass vm = allocate (ObjInstance klass Map.empty) vm"

definition newBoundMethod :: "'n Value \<Rightarrow> nat \<Rightarrow> 'n VM \<Rightarrow> nat \<times> 'n VM" where
  "newBoundMethod receiver method vm = allocate (ObjBoundMethod receiver method) vm"

text \<open>
  Modelled from the spec: \<^verbatim>\<open>takeString\<close> (\<^verbatim>\<open>object.c\<close>) looks the bytes up in the string
  table; if an interned string with these bytes exists it is returned, otherwise a new
  string object is allocated and entered into the table.
\<close>

definition takeString :: "string \<Rightarrow> 'n VM \<Rightarrow> nat \<times> 'n VM" where
  "takeString chars vm =
     (case strings vm chars of
        Some interned \<Rightarrow> (interned, vm)
      | None \<Rightarrow>
          (case allocate (ObjString chars) vm of
             (a, vm') \<Rightarrow> (a, vm'\<lparr>strings := (strings vm')(chars \<mapsto> a)\<rparr>)))"

text \<open>
  Modelled from the spec: the operations of \<^verbatim>\<open>table.c\<close>. \<open>tableSet\<close> returns whether the
  key was newly inserted; \<open>tableAddAll\<close> copies every entry of the first table into the
  second.
\<close>

definition tableGet :: "(nat \<rightharpoonup> 'n Value) \<Rightarrow> nat \<Rightarrow> 'n Value option" where
  "tableGet t key = t key"

definition tableSet :: "(nat \<rightharpoonup> 'n Value) \<Rightarrow> nat \<Rightarrow> 'n Value \<Rightarrow> (nat \<rightharpoonup> 'n Value) \<times> bool" where
  "tableSet t key v = (t(key \<mapsto> v), t key = None)"

definition tableDelete :: "(nat \<rightharpoonup> 'n Value) \<Rightarrow> nat \<Rightarrow> (nat \<rightharpoonup> 'n Value)" where
  "tableDelete t key = t(key := None)"

definition tableAddAll :: "(nat \<rightharpoonup> 'n Value) \<Rightarrow> (nat \<rightharpoonup> 'n Value) \<Rightarrow> (nat \<rightharpoonup> 'n Value)" where
  "tableAddAll from_t to_t = to_t ++ from_t"

text \<open>The type tests and casts of \<^verbatim>\<open>value.h\<close> and \<^verbatim>\<open>object.h\<close>.\<close>

definition IS_NUMBER :: "'n Value \<Rightarrow> bool" where
  "IS_NUMBER v = (case v of NUMBER_VAL n \<Rightarrow> True | _ \<Rightarrow> False)"

definition AS_NUMBER :: "'n Value \<Rightarrow> 'n option" where
  "AS_NUMBER v = (case v of NUMBER_VAL n \<Rightarrow> Some n | _ \<Rightarrow> None)"

definition IS_STRING :: "'n VM \<Rightarrow> 'n Value \<Rightarrow> bool option" where
  "IS_STRING vm v =
     (case v of
        OBJ_VAL a \<Rightarrow> (case obj_at vm a of Some (ObjString s) \<Rightarrow> Some True | Some _ \<Rightarrow> Some False | None \<Rightarrow> None)
      | _ \<Rightarrow> Some False)"

definition IS_INSTANCE :: "'n VM \<Rightarrow> 'n Value \<Rightarrow> bool option" where
  "IS_INSTANCE vm v =
     (case v of
        OBJ_VAL a \<Rightarrow> (case obj_at vm a of Some (ObjInstance k f) \<Rightarrow> Some True | Some _ \<Rightarrow> Some False | None \<Rightarrow> None)
      | _ \<Rightarrow> Some False)"

definition IS_CLASS :: "'n VM \<Rightarrow> 'n Value \<Rightarrow> bool option" where
  "IS_CLASS vm v =
     (case v of
        OBJ_VAL a \<Rightarrow> (case obj_at vm a of Some (ObjClass n m) \<Rightarrow> Some True | Some _ \<Rightarrow> Some False | None \<Rightarrow> None)
      | _ \<Rightarrow> Some False)"

text \<open>\<^verbatim>\<open>AS_STRING\<close>: the address of the string object and its characters.\<close>

definition AS_STRING :: "'n VM \<Rightarrow> 'n Value \<Rightarrow> (nat \<times> string) option" where
  "AS_STRING vm v =
     (case v of
        OBJ_VAL a \<Rightarrow> (case obj_at vm a of Some (ObjString s) \<Rightarrow> Some (a, s) | _ \<Rightarrow> None)
      | _ \<Rightarrow> None)"

text \<open>\<^verbatim>\<open>AS_CLASS\<close>: the address of the class object and its method table.\<close>

definition AS_CLASS :: "'n VM \<Rightarrow> 'n Value \<Rightarrow> (nat \<times> (nat \<rightharpoonup> 'n Value)) option" where
  "AS_CLASS vm v =
     (case v of
        OBJ_VAL a \<Rightarrow> (case obj_at vm a of Some (ObjClass n m) \<Rightarrow> Some (a, m) | _ \<Rightarrow> None)
      | _ \<Rightarrow> None)"

text \<open>\<^verbatim>\<open>AS_INSTANCE\<close>: the address of the instance, its class and its field table.\<close>

definition AS_INSTANCE :: "'n VM \<Rightarrow> 'n Value \<Rightarrow> (nat \<times> nat \<times> (nat \<rightharpoonup> 'n Value)) option" where
  "AS_INSTANCE vm v =
     (case v of
        OBJ_VAL a \<Rightarrow> (case obj_at vm a of Some (ObjInstance k f) \<Rightarrow> Some (a, k, f) | _ \<Rightarrow> None)
      | _ \<Rightarrow> None)"

text \<open>\<^verbatim>\<open>AS_CLOSURE\<close> and \<^verbatim>\<open>AS_FUNCTION\<close> are pointer casts: the address of the object.\<close>

definition AS_OBJ :: "'n Value \<Rightarrow> nat option" where
  "AS_OBJ v = (case v of OBJ_VAL a \<Rightarrow> Some a | _ \<Rightarrow> None)"

definition isFalsey :: "'n Value \<Rightarrow> bool" where
  "isFalsey v = (case v of NIL_VAL \<Rightarrow> True | BOOL_VAL b \<Rightarrow> \<not> b | _ \<Rightarrow> False)"

text \<open>
  Modelled from the spec: \<^verbatim>\<open>valuesEqual\<close> (\<^verbatim>\<open>value.c\<close>). Values of different variants are
  unequal, numbers are compared with the \<^verbatim>\<open>==\<close> of \<^verbatim>\<open>double\<close>, objects by identity.
\<close>

definition valuesEqual :: "'n platform \<Rightarrow> 'n Value \<Rightarrow> 'n Value \<Rightarrow> bool" where
  "valuesEqual P a b =
     (case (a, b) of
        (NIL_VAL, NIL_VAL) \<Rightarrow> True
      | (BOOL_VAL x, BOOL_VAL y) \<Rightarrow> x = y
      | (NUMBER_VAL x, NUMBER_VAL y) \<Rightarrow> num_equal P x y
      | (OBJ_VAL x, OBJ_VAL y) \<Rightarrow> x = y
      | _ \<Rightarrow> False)"

text \<open>Reading and writing through a \<^verbatim>\<open>Value*\<close>.\<close>

definition read_ptr :: "'n VM \<Rightarrow> value_ptr \<Rightarrow> 'n Value option" where
  "read_ptr vm p =
     (case p of
        StackSlot i \<Rightarrow> stack_get vm i
      | ClosedField a \<Rightarrow> (case obj_at vm a of Some (ObjUpvalue loc cl nx) \<Rightarrow> Some cl | _ \<Rightarrow> None))"

definition write_ptr :: "value_ptr \<Rightarrow> 'n Value \<Rightarrow> 'n VM \<Rightarrow> 'n VM option" where
  "write_ptr p v vm =
     (case p of
        StackSlot i \<Rightarrow> stack_set i v vm
      | ClosedField a \<Rightarrow>
          (case obj_at vm a of
             Some (ObjUpvalue loc cl nx) \<Rightarrow> Some (vm\<lparr>heap := (heap vm)[a := ObjUpvalue loc v nx]\<rparr>)
           | _ \<Rightarrow> None))"

text \<open>
  The comparison \<^verbatim>\<open><\<close> of two \<^verbatim>\<open>Value*\<close>. C defines it for two pointers into the same
  array only.
\<close>

fun ptr_less :: "value_ptr \<Rightarrow> value_ptr \<Rightarrow> bool option" where
  "ptr_less (StackSlot i) (StackSlot j) = Some (i < j)"
| "ptr_less (ClosedField a) (ClosedField b) = (if a = b then Some False else None)"
| "ptr_less (StackSlot i) (ClosedField b) = None"
| "ptr_less (ClosedField a) (StackSlot j) = None"

subsection \<open>Runtime errors\<close>

text \<open>The conversion \<^verbatim>\<open>%d\<close> of \<^verbatim>\<open>fprintf\<close>.\<close>

fun decimal :: "nat \<Rightarrow> string" where
  "decimal n =
     (if n < 10 then [char_of (48 + n)] else decimal (n div 10) @ [char_of (48 + n mod 10)])"

declare decimal.simps [simp del]

definition format_int :: "int \<Rightarrow> string" where
  "format_int i = (if i < 0 then CHR ''-'' # decimal (nat (- i)) else decimal (nat i))"

text \<open>
  The line that \<^verbatim>\<open>runtimeError\<close> prints for the frame \<open>i\<close>:
  \<^verbatim>\<open>[line %d] in script\<close> or \<^verbatim>\<open>[line %d] in %s()\<close>, for the instruction in front of the
  frame's \<open>ip\<close>.
\<close>

definition trace_line :: "'n VM \<Rightarrow> nat \<Rightarrow> string option" where
  "trace_line vm i =
     (if i < length (frames vm) then
        (case obj_at vm (closure (frames vm ! i)) of
           Some (ObjClosure function ups) \<Rightarrow>
             (case obj_at vm function of
                Some (ObjFunction arity upvalueCount name chunk) \<Rightarrow>
                  (if 0 < ip (frames vm ! i) \<and> ip (frames vm ! i) - 1 < length (lines chunk) then
                     (case name of
                        None \<Rightarrow>
                          Some (''[line '' @ format_int (lines chunk ! (ip (frames vm ! i) - 1))
                                @ ''] in script'' @ [CHR 0x0A])
                      | Some n \<Rightarrow>
                          (case obj_at vm n of
                             Some (ObjString chars) \<Rightarrow>
                               Some (''[line '' @ format_int (lines chunk ! (ip (frames vm ! i) - 1))
                                     @ ''] in '' @ chars @ ''()'' @ [CHR 0x0A])
                           | _ \<Rightarrow> None))
                   else None)
              | _ \<Rightarrow> None)
         | _ \<Rightarrow> None)
      else None)"

text \<open>\<^verbatim>\<open>for (int i = n - 1; i >= 0; i--)\<close>: the lines of the frames \<open>n - 1\<close> down to \<open>0\<close>.\<close>

fun stack_trace :: "'n VM \<Rightarrow> nat \<Rightarrow> string option" where
  "stack_trace vm 0 = Some []"
| "stack_trace vm (Suc i) =
     do { l \<leftarrow> trace_line vm i; rest \<leftarrow> stack_trace vm i; Some (l @ rest) }"

text \<open>\<open>message\<close> is the formatted message, without the newline.\<close>

definition runtimeError :: "string \<Rightarrow> 'n VM \<Rightarrow> 'n VM option" where
  "runtimeError message vm =
     do {
       trace \<leftarrow> stack_trace vm (nat (frameCount vm));
       Some (resetStack (vm\<lparr>err := err vm @ message @ [CHR 0x0A] @ trace\<rparr>))
     }"

subsection \<open>Calls\<close>

definition call :: "nat \<Rightarrow> nat \<Rightarrow> 'n VM \<Rightarrow> (bool \<times> 'n VM) option" where
  "call closure_addr argCount vm =
     (case obj_at vm closure_addr of
        Some (ObjClosure function ups) \<Rightarrow>
          (case obj_at vm function of
             Some (ObjFunction arity upvalueCount name chunk) \<Rightarrow>
               if int argCount \<noteq> arity then
                 do {
                   vm' \<leftarrow> runtimeError (''Expected '' @ format_int arity @ '' arguments but got ''
                                          @ format_int (int argCount) @ ''.'') vm;
                   Some (False, vm')
                 }
               else if frameCount vm = int (length (frames vm)) then
                 do { vm' \<leftarrow> runtimeError ''Stack overflow.'' vm; Some (False, vm') }
               else if 0 \<le> frameCount vm \<and> frameCount vm < int (length (frames vm))
                       \<and> argCount + 1 \<le> stackTop vm then
                 Some (True,
                   vm\<lparr>frames := (frames vm)[nat (frameCount vm) :=
                          \<lparr>closure = closure_addr, ip = 0, slots = stackTop vm - argCount - 1\<rparr>],
                      frameCount := frameCount vm + 1\<rparr>)
               else None
           | _ \<Rightarrow> None)
      | _ \<Rightarrow> None)"

text \<open>The four natives. \<^verbatim>\<open>exitNative\<close> ends the process: the call does not return.\<close>

definition callNative :: "'n platform \<Rightarrow> NativeFn \<Rightarrow> 'n VM \<Rightarrow> ('n Value \<times> 'n VM) option" where
  "callNative P native vm =
     (case native of
        clockNative \<Rightarrow> Some (NUMBER_VAL (clock_seconds P), vm)
      | exitNative \<Rightarrow> None
      | gcNative \<Rightarrow>
          (let before_gc = bytesAllocated P vm; vm' = collectGarbage P vm
           in Some (NUMBER_VAL (double_of_int P (before_gc - bytesAllocated P vm')), vm'))
      | gcHeapSizeNative \<Rightarrow> Some (NUMBER_VAL (double_of_int P (bytesAllocated P vm)), vm))"

text \<open>\<^verbatim>\<open>vm.stackTop[-argCount - 1] = v\<close>.\<close>

definition set_callee_slot :: "nat \<Rightarrow> 'n Value \<Rightarrow> 'n VM \<Rightarrow> 'n VM option" where
  "set_callee_slot argCount v vm =
     (if argCount + 1 \<le> stackTop vm then stack_set (stackTop vm - argCount - 1) v vm else None)"

definition callValue :: "'n platform \<Rightarrow> 'n Value \<Rightarrow> nat \<Rightarrow> 'n VM \<Rightarrow> (bool \<times> 'n VM) option" where
  "callValue P callee argCount vm =
     (case callee of
        OBJ_VAL a \<Rightarrow>
          (case obj_at vm a of
             Some (ObjBoundMethod receiver method) \<Rightarrow>
               do { vm1 \<leftarrow> set_callee_slot argCount receiver vm; call method argCount vm1 }
           | Some (ObjClass name methods) \<Rightarrow>
               (case newInstance a vm of (instance, vm1) \<Rightarrow>
                  do {
                    vm2 \<leftarrow> set_callee_slot argCount (OBJ_VAL instance) vm1;
                    init \<leftarrow> initString vm2;
                    case tableGet methods init of
                      Some initializer \<Rightarrow>
                        do { c \<leftarrow> AS_OBJ initializer; call c argCount vm2 }
                    | None \<Rightarrow>
                        if argCount \<noteq> 0 then
                          do {
                            vm3 \<leftarrow> runtimeError (''Expected 0 arguments but got ''
                                                   @ format_int (int argCount) @ ''.'') vm2;
                            Some (False, vm3)
                          }
                        else Some (True, vm2)
                  })
           | Some (ObjClosure function ups) \<Rightarrow> call a argCount vm
           | Some (ObjNative native) \<Rightarrow>
               do {
                 (result, vm1) \<leftarrow> callNative P native vm;
                 vm2 \<leftarrow> (if argCount + 1 \<le> stackTop vm1
                         then Some (vm1\<lparr>stackTop := stackTop vm1 - (argCount + 1)\<rparr>) else None);
                 vm3 \<leftarrow> push result vm2;
                 Some (True, vm3)
               }
           | Some _ \<Rightarrow>
               do { vm' \<leftarrow> runtimeError ''Can only call functions and classes.'' vm; Some (False, vm') }
           | None \<Rightarrow> None)
      | _ \<Rightarrow>
          do { vm' \<leftarrow> runtimeError ''Can only call functions and classes.'' vm; Some (False, vm') })"

text \<open>\<open>klass\<close> is the address of the class, \<open>name\<close> the address and the characters of the name.\<close>

definition invokeFromClass :: "nat \<Rightarrow> nat \<times> string \<Rightarrow> nat \<Rightarrow> 'n VM \<Rightarrow> (bool \<times> 'n VM) option" where
  "invokeFromClass klass name argCount vm =
     (case obj_at vm klass of
        Some (ObjClass cname methods) \<Rightarrow>
          (case tableGet methods (fst name) of
             None \<Rightarrow>
               do {
                 vm' \<leftarrow> runtimeError (''Undefined property '' @ [CHR 0x27] @ snd name @ [CHR 0x27] @ ''.'') vm;
                 Some (False, vm')
               }
           | Some method \<Rightarrow> do { c \<leftarrow> AS_OBJ method; call c argCount vm })
      | _ \<Rightarrow> None)"

definition invoke :: "'n platform \<Rightarrow> nat \<times> string \<Rightarrow> nat \<Rightarrow> 'n VM \<Rightarrow> (bool \<times> 'n VM) option" where
  "invoke P name argCount vm =
     do {
       receiver \<leftarrow> peek_vm argCount vm;
       is_inst \<leftarrow> IS_INSTANCE vm receiver;
       if \<not> is_inst then
         do { vm' \<leftarrow> runtimeError ''Only instances have methods.'' vm; Some (False, vm') }
       else
         do {
           (instance, klass, fields) \<leftarrow> AS_INSTANCE vm receiver;
           case tableGet fields (fst name) of
             Some v \<Rightarrow>
               do { vm1 \<leftarrow> set_callee_slot argCount v vm; callValue P v argCount vm1 }
           | None \<Rightarrow> invokeFromClass klass name argCount vm
         }
     }"

definition bindMethod :: "nat \<Rightarrow> nat \<times> string \<Rightarrow> 'n VM \<Rightarrow> (bool \<times> 'n VM) option" where
  "bindMethod klass name vm =
     (case obj_at vm klass of
        Some (ObjClass cname methods) \<Rightarrow>
          (case tableGet methods (fst name) of
             None \<Rightarrow>
               do {
                 vm' \<leftarrow> runtimeError (''Undefined property '' @ [CHR 0x27] @ snd name @ [CHR 0x27] @ ''.'') vm;
                 Some (False, vm')
               }
           | Some method \<Rightarrow>
               do {
                 receiver \<leftarrow> peek_vm 0 vm;
                 c \<leftarrow> AS_OBJ method;
                 case newBoundMethod receiver c vm of (bound, vm1) \<Rightarrow>
                   do {
                     (v, vm2) \<leftarrow> pop vm1;
                     vm3 \<leftarrow> push (OBJ_VAL bound) vm2;
                     Some (True, vm3)
                   }
               })
      | _ \<Rightarrow> None)"

subsection \<open>Upvalues\<close>

definition upvalue_at :: "'n VM \<Rightarrow> nat \<Rightarrow> (value_ptr \<times> 'n Value \<times> nat option) option" where
  "upvalue_at vm a =
     (case obj_at vm a of Some (ObjUpvalue loc cl nx) \<Rightarrow> Some (loc, cl, nx) | _ \<Rightarrow> None)"

text \<open>\<^verbatim>\<open>u->next = nx\<close> for the upvalue at the address \<open>a\<close>.\<close>

definition set_next :: "nat \<Rightarrow> nat option \<Rightarrow> 'n VM \<Rightarrow> 'n VM option" where
  "set_next a nx vm =
     (case obj_at vm a of
        Some (ObjUpvalue loc cl old) \<Rightarrow> Some (vm\<lparr>heap := (heap vm)[a := ObjUpvalue loc cl nx]\<rparr>)
      | _ \<Rightarrow> None)"

text \<open>
  The loop of \<^verbatim>\<open>captureUpvalue\<close>:
  \<^verbatim>\<open>while (upvalue != NULL && upvalue->location > local) { prevUpvalue = upvalue; upvalue = upvalue->next; }\<close>.
  It returns the final \<^verbatim>\<open>prevUpvalue\<close> and \<^verbatim>\<open>upvalue\<close>.
\<close>

partial_function (option) capture_walk ::
  "'n VM \<Rightarrow> value_ptr \<Rightarrow> nat option \<Rightarrow> nat option \<Rightarrow> (nat option \<times> nat option) option" where
  "capture_walk vm local prevUpvalue upvalue =
     (case upvalue of
        None \<Rightarrow> Some (prevUpvalue, upvalue)
      | Some a \<Rightarrow>
          do {
            (loc, cl, nx) \<leftarrow> upvalue_at vm a;
            above \<leftarrow> ptr_less local loc;
            if above then capture_walk vm local (Some a) nx else Some (prevUpvalue, upvalue)
          })"

declare capture_walk.simps [code]

definition captureUpvalue :: "value_ptr \<Rightarrow> 'n VM \<Rightarrow> (nat \<times> 'n VM) option" where
  "captureUpvalue local vm =
     do {
       (prevUpvalue, upvalue) \<leftarrow> capture_walk vm local None (openUpvalues vm);
       existing \<leftarrow>
         (case upvalue of
            None \<Rightarrow> Some None
          | Some a \<Rightarrow>
              do { (loc, cl, nx) \<leftarrow> upvalue_at vm a; Some (if loc = local then Some a else None) });
       case existing of
         Some a \<Rightarrow> Some (a, vm)
       | None \<Rightarrow>
           (case newUpvalue local vm of (createdUpvalue, vm1) \<Rightarrow>
              do {
                vm2 \<leftarrow> set_next createdUpvalue upvalue vm1;
                vm3 \<leftarrow>
                  (case prevUpvalue of
                     None \<Rightarrow> Some (vm2\<lparr>openUpvalues := Some createdUpvalue\<rparr>)
                   | Some p \<Rightarrow> set_next p (Some createdUpvalue) vm2);
                Some (createdUpvalue, vm3)
              })
     }"

text \<open>
  \<^verbatim>\<open>while (vm.openUpvalues != NULL && vm.openUpvalues->location >= last) { ... }\<close>: the
  first upvalue of the list gets the value of its slot in its \<^verbatim>\<open>closed\<close> field, its
  \<^verbatim>\<open>location\<close> is set to the address of that field, and the list goes on with its \<^verbatim>\<open>next\<close>.
\<close>

partial_function (option) closeUpvalues :: "value_ptr \<Rightarrow> 'n VM \<Rightarrow> 'n VM option" where
  "closeUpvalues last_p vm =
     (case openUpvalues vm of
        None \<Rightarrow> Some vm
      | Some a \<Rightarrow>
          do {
            (loc, cl, nx) \<leftarrow> upvalue_at vm a;
            below \<leftarrow> ptr_less loc last_p;
            if \<not> below then
              do {
                v \<leftarrow> read_ptr vm loc;
                closeUpvalues last_p
                  (vm\<lparr>heap := (heap vm)[a := ObjUpvalue (ClosedField a) v nx], openUpvalues := nx\<rparr>)
              }
            else Some vm
          })"

declare closeUpvalues.simps [code]

definition defineMethod :: "nat \<Rightarrow> 'n VM \<Rightarrow> 'n VM option" where
  "defineMethod name vm =
     do {
       method \<leftarrow> peek_vm 0 vm;
       k \<leftarrow> peek_vm 1 vm;
       (klass, methods) \<leftarrow> AS_CLASS vm k;
       cname \<leftarrow> (case obj_at vm klass of Some (ObjClass cname m) \<Rightarrow> Some cname | _ \<Rightarrow> None);
       (v, vm') \<leftarrow> pop (vm\<lparr>heap := (heap vm)[klass := ObjClass cname (fst (tableSet methods name method))]\<rparr>);
       Some vm'
     }"

definition concatenate :: "'n VM \<Rightarrow> 'n VM option" where
  "concatenate vm =
     do {
       vb \<leftarrow> peek_vm 0 vm;
       (b, b_chars) \<leftarrow> AS_STRING vm vb;
       va \<leftarrow> peek_vm 1 vm;
       (a, a_chars) \<leftarrow> AS_STRING vm va;
       case takeString (a_chars @ b_chars) vm of (result, vm1) \<Rightarrow>
         do {
           (v1, vm2) \<leftarrow> pop vm1;
           (v2, vm3) \<leftarrow> pop vm2;
           push (OBJ_VAL result) vm3
         }
     }"

subsection \<open>The macros of \<^verbatim>\<open>run\<close>\<close>

definition LOAD_FRAME :: "'n VM \<Rightarrow> regs option" where
  "LOAD_FRAME vm =
     (if 0 < frameCount vm \<and> frameCount vm \<le> int (length (frames vm)) then
        (case obj_at vm (closure (frames vm ! nat (frameCount vm - 1))) of
           Some (ObjClosure function ups) \<Rightarrow>
             Some \<lparr>frame = nat (frameCount vm - 1),
                   stackStart = slots (frames vm ! nat (frameCount vm - 1)),
                   reg_ip = ip (frames vm ! nat (frameCount vm - 1)),
                   fn = function\<rparr>
         | _ \<Rightarrow> None)
      else None)"

definition STORE_FRAME :: "regs \<Rightarrow> 'n VM \<Rightarrow> 'n VM option" where
  "STORE_FRAME r vm =
     (if frame r < length (frames vm)
      then Some (vm\<lparr>frames := (frames vm)[frame r := (frames vm ! frame r)\<lparr>ip := reg_ip r\<rparr>]\<rparr>)
      else None)"

definition fn_chunk :: "'n VM \<Rightarrow> regs \<Rightarrow> 'n Chunk option" where
  "fn_chunk vm r =
     (case obj_at vm (fn r) of
        Some (ObjFunction arity upvalueCount name chunk) \<Rightarrow> Some chunk
      | _ \<Rightarrow> None)"

definition READ_BYTE :: "'n VM \<Rightarrow> regs \<Rightarrow> (8 word \<times> regs) option" where
  "READ_BYTE vm r =
     do {
       chunk \<leftarrow> fn_chunk vm r;
       if reg_ip r < length (code chunk)
       then Some (code chunk ! reg_ip r, r\<lparr>reg_ip := reg_ip r + 1\<rparr>)
       else None
     }"

text \<open>\<^verbatim>\<open>(ip += 2, (uint16_t)((ip[-2] << 8) | ip[-1]))\<close>\<close>

definition READ_SHORT :: "'n VM \<Rightarrow> regs \<Rightarrow> (nat \<times> regs) option" where
  "READ_SHORT vm r =
     do {
       chunk \<leftarrow> fn_chunk vm r;
       if reg_ip r + 1 < length (code chunk)
       then Some (unat (code chunk ! reg_ip r) * 256 + unat (code chunk ! (reg_ip r + 1)),
                  r\<lparr>reg_ip := reg_ip r + 2\<rparr>)
       else None
     }"

definition READ_CONSTANT :: "'n VM \<Rightarrow> regs \<Rightarrow> ('n Value \<times> regs) option" where
  "READ_CONSTANT vm r =
     do {
       (b, r') \<leftarrow> READ_BYTE vm r;
       chunk \<leftarrow> fn_chunk vm r;
       if unat b < length (constants chunk) then Some (constants chunk ! unat b, r') else None
     }"

text \<open>\<^verbatim>\<open>READ_STRING()\<close>: the address and the characters of the string constant.\<close>

definition READ_STRING :: "'n VM \<Rightarrow> regs \<Rightarrow> ((nat \<times> string) \<times> regs) option" where
  "READ_STRING vm r =
     do {
       (v, r') \<leftarrow> READ_CONSTANT vm r;
       name \<leftarrow> AS_STRING vm v;
       Some (name, r')
     }"

text \<open>
  The runtime error of an instruction of \<^verbatim>\<open>run\<close>:
  \<^verbatim>\<open>STORE_FRAME(); runtimeError(...); return INTERPRET_RUNTIME_ERROR;\<close>
\<close>

definition fail_with :: "string \<Rightarrow> regs \<Rightarrow> 'n VM \<Rightarrow> 'n step option" where
  "fail_with message r vm =
     do {
       vm1 \<leftarrow> STORE_FRAME r vm;
       vm2 \<leftarrow> runtimeError message vm1;
       Some (Finished INTERPRET_RUNTIME_ERROR vm2)
     }"

text \<open>
  \<^verbatim>\<open>BINARY_OP\<close>. \<open>PEEK2()\<close> is read only if \<open>PEEK()\<close> is a number, as \<^verbatim>\<open>||\<close> does.
\<close>

definition BINARY_OP :: "('n \<Rightarrow> 'n \<Rightarrow> 'n Value) \<Rightarrow> 'n VM \<Rightarrow> regs \<Rightarrow> 'n step option" where
  "BINARY_OP f vm r =
     do {
       top \<leftarrow> peek_vm 0 vm;
       both \<leftarrow> (if \<not> IS_NUMBER top then Some False
                else do { second \<leftarrow> peek_vm 1 vm; Some (IS_NUMBER second) });
       if \<not> both then fail_with ''Operands must be numbers.'' r vm
       else
         do {
           (vb, vm1) \<leftarrow> pop vm;
           b \<leftarrow> AS_NUMBER vb;
           (va, vm2) \<leftarrow> pop vm1;
           a \<leftarrow> AS_NUMBER va;
           vm3 \<leftarrow> push (f a b) vm2;
           Some (Dispatch vm3 r)
         }
     }"

subsection \<open>The instructions\<close>

definition op_CONSTANT :: "'n VM \<Rightarrow> regs \<Rightarrow> 'n step option" where
  "op_CONSTANT vm r =
     do { (v, r') \<leftarrow> READ_CONSTANT vm r; vm' \<leftarrow> push v vm; Some (Dispatch vm' r') }"

definition op_push :: "'n Value \<Rightarrow> 'n VM \<Rightarrow> regs \<Rightarrow> 'n step option" where
  "op_push v vm r = do { vm' \<leftarrow> push v vm; Some (Dispatch vm' r) }"

definition op_POP :: "'n VM \<Rightarrow> regs \<Rightarrow> 'n step option" where
  "op_POP vm r = do { vm' \<leftarrow> DROP vm; Some (Dispatch vm' r) }"

definition op_GET_LOCAL :: "'n VM \<Rightarrow> regs \<Rightarrow> 'n step option" where
  "op_GET_LOCAL vm r =
     do {
       (b, r') \<leftarrow> READ_BYTE vm r;
       v \<leftarrow> stack_get vm (stackStart r + unat b);
       vm' \<leftarrow> push v vm;
       Some (Dispatch vm' r')
     }"

definition op_SET_LOCAL :: "'n VM \<Rightarrow> regs \<Rightarrow> 'n step option" where
  "op_SET_LOCAL vm r =
     do {
       (b, r') \<leftarrow> READ_BYTE vm r;
       v \<leftarrow> peek_vm 0 vm;
       vm' \<leftarrow> stack_set (stackStart r + unat b) v vm;
       Some (Dispatch vm' r')
     }"

definition op_GET_GLOBAL :: "'n VM \<Rightarrow> regs \<Rightarrow> 'n step option" where
  "op_GET_GLOBAL vm r =
     do {
       (name, r') \<leftarrow> READ_STRING vm r;
       case tableGet (globals vm) (fst name) of
         None \<Rightarrow>
           fail_with (''Undefined variable '' @ [CHR 0x27] @ snd name @ [CHR 0x27] @ ''.'') r' vm
       | Some v \<Rightarrow> do { vm' \<leftarrow> push v vm; Some (Dispatch vm' r') }
     }"

definition op_DEFINE_GLOBAL :: "'n VM \<Rightarrow> regs \<Rightarrow> 'n step option" where
  "op_DEFINE_GLOBAL vm r =
     do {
       (name, r') \<leftarrow> READ_STRING vm r;
       v \<leftarrow> peek_vm 0 vm;
       vm' \<leftarrow> DROP (vm\<lparr>globals := fst (tableSet (globals vm) (fst name) v)\<rparr>);
       Some (Dispatch vm' r')
     }"

definition op_SET_GLOBAL :: "'n VM \<Rightarrow> regs \<Rightarrow> 'n step option" where
  "op_SET_GLOBAL vm r =
     do {
       (name, r') \<leftarrow> READ_STRING vm r;
       v \<leftarrow> peek_vm 0 vm;
       case tableSet (globals vm) (fst name) v of
         (t, isNewKey) \<Rightarrow>
           if isNewKey then
             fail_with (''Undefined variable '' @ [CHR 0x27] @ snd name @ [CHR 0x27] @ ''.'') r'
               (vm\<lparr>globals := tableDelete t (fst name)\<rparr>)
           else Some (Dispatch (vm\<lparr>globals := t\<rparr>) r')
     }"

text \<open>\<^verbatim>\<open>frame->closure->upvalues[READ_BYTE()]->location\<close>\<close>

definition frame_upvalue :: "'n VM \<Rightarrow> regs \<Rightarrow> nat \<Rightarrow> nat option" where
  "frame_upvalue vm r i =
     (if frame r < length (frames vm) then
        (case obj_at vm (closure (frames vm ! frame r)) of
           Some (ObjClosure function ups) \<Rightarrow> (if i < length ups then ups ! i else None)
         | _ \<Rightarrow> None)
      else None)"

definition op_GET_UPVALUE :: "'n VM \<Rightarrow> regs \<Rightarrow> 'n step option" where
  "op_GET_UPVALUE vm r =
     do {
       (b, r') \<leftarrow> READ_BYTE vm r;
       u \<leftarrow> frame_upvalue vm r (unat b);
       (loc, cl, nx) \<leftarrow> upvalue_at vm u;
       v \<leftarrow> read_ptr vm loc;
       vm' \<leftarrow> push v vm;
       Some (Dispatch vm' r')
     }"

definition op_SET_UPVALUE :: "'n VM \<Rightarrow> regs \<Rightarrow> 'n step option" where
  "op_SET_UPVALUE vm r =
     do {
       (b, r') \<leftarrow> READ_BYTE vm r;
       u \<leftarrow> frame_upvalue vm r (unat b);
       (loc, cl, nx) \<leftarrow> upvalue_at vm u;
       v \<leftarrow> peek_vm 0 vm;
       vm' \<leftarrow> write_ptr loc v vm;
       Some (Dispatch vm' r')
     }"

text \<open>
  When \<^verbatim>\<open>bindMethod\<close> fails, \<^verbatim>\<open>OP_GET_PROPERTY\<close> and \<^verbatim>\<open>OP_GET_SUPER\<close> return without
  \<^verbatim>\<open>STORE_FRAME()\<close>.
\<close>

definition op_GET_PROPERTY :: "'n VM \<Rightarrow> regs \<Rightarrow> 'n step option" where
  "op_GET_PROPERTY vm r =
     do {
       top \<leftarrow> peek_vm 0 vm;
       is_inst \<leftarrow> IS_INSTANCE vm top;
       if \<not> is_inst then fail_with ''Only instances have properties.'' r vm
       else
         do {
           (instance, klass, fields) \<leftarrow> AS_INSTANCE vm top;
           (name, r') \<leftarrow> READ_STRING vm r;
           case tableGet fields (fst name) of
             Some v \<Rightarrow> do { vm1 \<leftarrow> DROP vm; vm2 \<leftarrow> push v vm1; Some (Dispatch vm2 r') }
           | None \<Rightarrow>
               do {
                 (ok, vm1) \<leftarrow> bindMethod klass name vm;
                 if \<not> ok then Some (Finished INTERPRET_RUNTIME_ERROR vm1)
                 else Some (Dispatch vm1 r')
               }
         }
     }"

definition op_SET_PROPERTY :: "'n VM \<Rightarrow> regs \<Rightarrow> 'n step option" where
  "op_SET_PROPERTY vm r =
     do {
       second \<leftarrow> peek_vm 1 vm;
       is_inst \<leftarrow> IS_INSTANCE vm second;
       if \<not> is_inst then fail_with ''Only instances have fields.'' r vm
       else
         do {
           (instance, klass, fields) \<leftarrow> AS_INSTANCE vm second;
           (name, r') \<leftarrow> READ_STRING vm r;
           top \<leftarrow> peek_vm 0 vm;
           (v, vm1) \<leftarrow> pop (vm\<lparr>heap := (heap vm)[instance :=
                                  ObjInstance klass (fst (tableSet fields (fst name) top))]\<rparr>);
           vm2 \<leftarrow> DROP vm1;
           vm3 \<leftarrow> push v vm2;
           Some (Dispatch vm3 r')
         }
     }"

definition op_GET_SUPER :: "'n VM \<Rightarrow> regs \<Rightarrow> 'n step option" where
  "op_GET_SUPER vm r =
     do {
       (name, r') \<leftarrow> READ_STRING vm r;
       (v, vm1) \<leftarrow> pop vm;
       (superclass, methods) \<leftarrow> AS_CLASS vm1 v;
       (ok, vm2) \<leftarrow> bindMethod superclass name vm1;
       if \<not> ok then Some (Finished INTERPRET_RUNTIME_ERROR vm2)
       else Some (Dispatch vm2 r')
     }"

definition op_EQUAL :: "'n platform \<Rightarrow> 'n VM \<Rightarrow> regs \<Rightarrow> 'n step option" where
  "op_EQUAL P vm r =
     do {
       (b, vm1) \<leftarrow> pop vm;
       (a, vm2) \<leftarrow> pop vm1;
       vm3 \<leftarrow> push (BOOL_VAL (valuesEqual P a b)) vm2;
       Some (Dispatch vm3 r)
     }"

text \<open>
  \<^verbatim>\<open>OP_ADD\<close>. As \<^verbatim>\<open>&&\<close> does, \<open>PEEK2()\<close> is read only if \<open>PEEK()\<close> is a string, and in the second
  test only if \<open>PEEK()\<close> is a number.
\<close>

definition op_ADD :: "'n platform \<Rightarrow> 'n VM \<Rightarrow> regs \<Rightarrow> 'n step option" where
  "op_ADD P vm r =
     do {
       top \<leftarrow> peek_vm 0 vm;
       top_is_string \<leftarrow> IS_STRING vm top;
       strings2 \<leftarrow> (if \<not> top_is_string then Some False
                    else do { second \<leftarrow> peek_vm 1 vm; IS_STRING vm second });
       if strings2 then do { vm' \<leftarrow> concatenate vm; Some (Dispatch vm' r) }
       else
         do {
           numbers2 \<leftarrow> (if \<not> IS_NUMBER top then Some False
                        else do { second \<leftarrow> peek_vm 1 vm; Some (IS_NUMBER second) });
           if numbers2 then
             do {
               (vb, vm1) \<leftarrow> pop vm;
               b \<leftarrow> AS_NUMBER vb;
               (va, vm2) \<leftarrow> pop vm1;
               a \<leftarrow> AS_NUMBER va;
               vm3 \<leftarrow> push (NUMBER_VAL (num_add P a b)) vm2;
               Some (Dispatch vm3 r)
             }
           else fail_with ''Operands must be two numbers or two strings.'' r vm
         }
     }"

definition op_NOT :: "'n VM \<Rightarrow> regs \<Rightarrow> 'n step option" where
  "op_NOT vm r =
     do {
       (v, vm1) \<leftarrow> pop vm;
       vm2 \<leftarrow> push (BOOL_VAL (isFalsey v)) vm1;
       Some (Dispatch vm2 r)
     }"

definition op_NEGATE :: "'n platform \<Rightarrow> 'n VM \<Rightarrow> regs \<Rightarrow> 'n step option" where
  "op_NEGATE P vm r =
     do {
       top \<leftarrow> peek_vm 0 vm;
       if \<not> IS_NUMBER top then fail_with ''Operand must be a number.'' r vm
       else
         do {
           (v, vm1) \<leftarrow> pop vm;
           n \<leftarrow> AS_NUMBER v;
           vm2 \<leftarrow> push (double_as_value P (num_neg P n)) vm1;
           Some (Dispatch vm2 r)
         }
     }"

definition op_PRINT :: "'n platform \<Rightarrow> 'n VM \<Rightarrow> regs \<Rightarrow> 'n step option" where
  "op_PRINT P vm r =
     do {
       (v, vm1) \<leftarrow> pop vm;
       Some (Dispatch (vm1\<lparr>out := out vm1 @ printValue P (heap vm1) v @ [CHR 0x0A]\<rparr>) r)
     }"

definition op_JUMP :: "'n VM \<Rightarrow> regs \<Rightarrow> 'n step option" where
  "op_JUMP vm r =
     do {
       (offset, r') \<leftarrow> READ_SHORT vm r;
       Some (Dispatch vm (r'\<lparr>reg_ip := reg_ip r' + offset\<rparr>))
     }"

definition op_JUMP_IF_FALSE :: "'n VM \<Rightarrow> regs \<Rightarrow> 'n step option" where
  "op_JUMP_IF_FALSE vm r =
     do {
       (offset, r') \<leftarrow> READ_SHORT vm r;
       top \<leftarrow> peek_vm 0 vm;
       Some (Dispatch vm (if isFalsey top then r'\<lparr>reg_ip := reg_ip r' + offset\<rparr> else r'))
     }"

definition op_LOOP :: "'n VM \<Rightarrow> regs \<Rightarrow> 'n step option" where
  "op_LOOP vm r =
     do {
       (offset, r') \<leftarrow> READ_SHORT vm r;
       if offset \<le> reg_ip r' then Some (Dispatch vm (r'\<lparr>reg_ip := reg_ip r' - offset\<rparr>))
       else None
     }"

text \<open>After a call: \<^verbatim>\<open>return INTERPRET_RUNTIME_ERROR\<close> if it failed, else \<^verbatim>\<open>LOAD_FRAME()\<close>.\<close>

definition after_call :: "bool \<times> 'n VM \<Rightarrow> 'n step option" where
  "after_call res =
     (case res of
        (ok, vm') \<Rightarrow>
          if \<not> ok then Some (Finished INTERPRET_RUNTIME_ERROR vm')
          else do { r' \<leftarrow> LOAD_FRAME vm'; Some (Dispatch vm' r') })"

definition op_CALL :: "'n platform \<Rightarrow> 'n VM \<Rightarrow> regs \<Rightarrow> 'n step option" where
  "op_CALL P vm r =
     do {
       (b, r') \<leftarrow> READ_BYTE vm r;
       vm1 \<leftarrow> STORE_FRAME r' vm;
       callee \<leftarrow> peek_vm (unat b) vm1;
       res \<leftarrow> callValue P callee (unat b) vm1;
       after_call res
     }"

definition op_INVOKE :: "'n platform \<Rightarrow> 'n VM \<Rightarrow> regs \<Rightarrow> 'n step option" where
  "op_INVOKE P vm r =
     do {
       (method, r1) \<leftarrow> READ_STRING vm r;
       (b, r2) \<leftarrow> READ_BYTE vm r1;
       vm1 \<leftarrow> STORE_FRAME r2 vm;
       res \<leftarrow> invoke P method (unat b) vm1;
       after_call res
     }"

definition op_SUPER_INVOKE :: "'n VM \<Rightarrow> regs \<Rightarrow> 'n step option" where
  "op_SUPER_INVOKE vm r =
     do {
       (method, r1) \<leftarrow> READ_STRING vm r;
       (b, r2) \<leftarrow> READ_BYTE vm r1;
       (v, vm1) \<leftarrow> pop vm;
       (superclass, methods) \<leftarrow> AS_CLASS vm1 v;
       vm2 \<leftarrow> STORE_FRAME r2 vm1;
       res \<leftarrow> invokeFromClass superclass method (unat b) vm2;
       after_call res
     }"

text \<open>\<^verbatim>\<open>closure->upvalues[i] = u\<close> for the closure at the address \<open>c\<close>.\<close>

definition set_closure_upvalue :: "nat \<Rightarrow> nat \<Rightarrow> nat option \<Rightarrow> 'n VM \<Rightarrow> 'n VM option" where
  "set_closure_upvalue c i u vm =
     (case obj_at vm c of
        Some (ObjClosure function ups) \<Rightarrow>
          (if i < length ups then Some (vm\<lparr>heap := (heap vm)[c := ObjClosure function (ups[i := u])]\<rparr>)
           else None)
      | _ \<Rightarrow> None)"

text \<open>
  The loop of \<^verbatim>\<open>OP_CLOSURE\<close>, \<^verbatim>\<open>for (int i = 0; i < closure->upvalueCount; i++)\<close>, from the
  index \<open>i\<close> on, with \<open>n\<close> rounds to go.
\<close>

fun closure_upvalues :: "nat \<Rightarrow> nat \<Rightarrow> nat \<Rightarrow> 'n VM \<Rightarrow> regs \<Rightarrow> ('n VM \<times> regs) option" where
  "closure_upvalues c i 0 vm r = Some (vm, r)"
| "closure_upvalues c i (Suc n) vm r =
     do {
       (isLocal, r1) \<leftarrow> READ_BYTE vm r;
       (index, r2) \<leftarrow> READ_BYTE vm r1;
       vm2 \<leftarrow>
         (if isLocal \<noteq> 0 then
            (if stackStart r + unat index \<le> length (stack vm) then
               do {
                 (u, vm1) \<leftarrow> captureUpvalue (StackSlot (stackStart r + unat index)) vm;
                 set_closure_upvalue c i (Some u) vm1
               }
             else None)
          else
            (if frame r < length (frames vm) then
               (case obj_at vm (closure (frames vm ! frame r)) of
                  Some (ObjClosure function ups) \<Rightarrow>
                    (if unat index < length ups then set_closure_upvalue c i (ups ! unat index) vm
                     else None)
                | _ \<Rightarrow> None)
             else None));
       closure_upvalues c (i + 1) n vm2 r2
     }"

definition op_CLOSURE :: "'n VM \<Rightarrow> regs \<Rightarrow> 'n step option" where
  "op_CLOSURE vm r =
     do {
       (v, r1) \<leftarrow> READ_CONSTANT vm r;
       function \<leftarrow> AS_OBJ v;
       (c, vm1) \<leftarrow> newClosure function vm;
       vm2 \<leftarrow> push (OBJ_VAL c) vm1;
       upvalueCount \<leftarrow> (case obj_at vm2 c of Some (ObjClosure f ups) \<Rightarrow> Some (length ups) | _ \<Rightarrow> None);
       (vm3, r2) \<leftarrow> closure_upvalues c 0 upvalueCount vm2 r1;
       Some (Dispatch vm3 r2)
     }"

definition op_CLOSE_UPVALUE :: "'n VM \<Rightarrow> regs \<Rightarrow> 'n step option" where
  "op_CLOSE_UPVALUE vm r =
     (if 0 < stackTop vm then
        do {
          vm1 \<leftarrow> closeUpvalues (StackSlot (stackTop vm - 1)) vm;
          vm2 \<leftarrow> DROP vm1;
          Some (Dispatch vm2 r)
        }
      else None)"

definition op_RETURN :: "'n VM \<Rightarrow> regs \<Rightarrow> 'n step option" where
  "op_RETURN vm r =
     do {
       (result, vm1) \<leftarrow> pop vm;
       vm2 \<leftarrow> closeUpvalues (StackSlot (stackStart r)) vm1;
       let vm3 = vm2\<lparr>frameCount := frameCount vm2 - 1\<rparr>;
       if frameCount vm3 = 0 then
         do { vm4 \<leftarrow> DROP vm3; Some (Finished INTERPRET_OK vm4) }
       else
         do {
           vm4 \<leftarrow> push result (vm3\<lparr>stackTop := stackStart r\<rparr>);
           r' \<leftarrow> LOAD_FRAME vm4;
           Some (Dispatch vm4 r')
         }
     }"

definition op_CLASS :: "'n VM \<Rightarrow> regs \<Rightarrow> 'n step option" where
  "op_CLASS vm r =
     do {
       (name, r') \<leftarrow> READ_STRING vm r;
       case newClass (fst name) vm of (c, vm1) \<Rightarrow>
         do { vm2 \<leftarrow> push (OBJ_VAL c) vm1; Some (Dispatch vm2 r') }
     }"

definition op_INHERIT :: "'n VM \<Rightarrow> regs \<Rightarrow> 'n step option" where
  "op_INHERIT vm r =
     do {
       superclass \<leftarrow> peek_vm 1 vm;
       is_class \<leftarrow> IS_CLASS vm superclass;
       if \<not> is_class then fail_with ''Superclass must be a class.'' r vm
       else
         do {
           (super, super_methods) \<leftarrow> AS_CLASS vm superclass;
           top \<leftarrow> peek_vm 0 vm;
           (subclass, sub_methods) \<leftarrow> AS_CLASS vm top;
           cname \<leftarrow> (case obj_at vm subclass of Some (ObjClass cname m) \<Rightarrow> Some cname | _ \<Rightarrow> None);
           vm1 \<leftarrow> DROP (vm\<lparr>heap := (heap vm)[subclass :=
                            ObjClass cname (tableAddAll super_methods sub_methods)]\<rparr>);
           Some (Dispatch vm1 r)
         }
     }"

definition op_METHOD :: "'n VM \<Rightarrow> regs \<Rightarrow> 'n step option" where
  "op_METHOD vm r =
     do {
       (name, r') \<leftarrow> READ_STRING vm r;
       vm' \<leftarrow> defineMethod (fst name) vm;
       Some (Dispatch vm' r')
     }"

subsection \<open>The dispatch loop\<close>

text \<open>One instruction: \<^verbatim>\<open>switch (instruction = (OpCode)READ_BYTE())\<close>.\<close>

definition step :: "'n platform \<Rightarrow> 'n VM \<Rightarrow> regs \<Rightarrow> 'n step option" where
  "step P vm r0 =
     do {
       (b, r) \<leftarrow> READ_BYTE vm r0;
       instruction \<leftarrow> decode P b;
       case instruction of
         OP_CONSTANT \<Rightarrow> op_CONSTANT vm r
       | OP_NIL \<Rightarrow> op_push NIL_VAL vm r
       | OP_TRUE \<Rightarrow> op_push (BOOL_VAL True) vm r
       | OP_FALSE \<Rightarrow> op_push (BOOL_VAL False) vm r
       | OP_POP \<Rightarrow> op_POP vm r
       | OP_GET_LOCAL \<Rightarrow> op_GET_LOCAL vm r
       | OP_SET_LOCAL \<Rightarrow> op_SET_LOCAL vm r
       | OP_GET_GLOBAL \<Rightarrow> op_GET_GLOBAL vm r
       | OP_DEFINE_GLOBAL \<Rightarrow> op_DEFINE_GLOBAL vm r
       | OP_SET_GLOBAL \<Rightarrow> op_SET_GLOBAL vm r
       | OP_GET_UPVALUE \<Rightarrow> op_GET_UPVALUE vm r
       | OP_SET_UPVALUE \<Rightarrow> op_SET_UPVALUE vm r
       | OP_GET_PROPERTY \<Rightarrow> op_GET_PROPERTY vm r
       | OP_SET_PROPERTY \<Rightarrow> op_SET_PROPERTY vm r
       | OP_GET_SUPER \<Rightarrow> op_GET_SUPER vm r
       | OP_EQUAL \<Rightarrow> op_EQUAL P vm r
       | OP_GREATER \<Rightarrow> BINARY_OP (\<lambda>a b. BOOL_VAL (num_greater P a b)) vm r
       | OP_LESS \<Rightarrow> BINARY_OP (\<lambda>a b. BOOL_VAL (num_less P a b)) vm r
       | OP_ADD \<Rightarrow> op_ADD P vm r
       | OP_SUBTRACT \<Rightarrow> BINARY_OP (\<lambda>a b. NUMBER_VAL (num_sub P a b)) vm r
       | OP_MULTIPLY \<Rightarrow> BINARY_OP (\<lambda>a b. NUMBER_VAL (num_mul P a b)) vm r
       | OP_DIVIDE \<Rightarrow> BINARY_OP (\<lambda>a b. NUMBER_VAL (num_div P a b)) vm r
       | OP_NOT \<Rightarrow> op_NOT vm r
       | OP_NEGATE \<Rightarrow> op_NEGATE P vm r
       | OP_PRINT \<Rightarrow> op_PRINT P vm r
       | OP_JUMP \<Rightarrow> op_JUMP vm r
       | OP_JUMP_IF_FALSE \<Rightarrow> op_JUMP_IF_FALSE vm r
       | OP_LOOP \<Rightarrow> op_LOOP vm r
       | OP_CALL \<Rightarrow> op_CALL P vm r
       | OP_INVOKE \<Rightarrow> op_INVOKE P vm r
       | OP_SUPER_INVOKE \<Rightarrow> op_SUPER_INVOKE vm r
       | OP_CLOSURE \<Rightarrow> op_CLOSURE vm r
       | OP_CLOSE_UPVALUE \<Rightarrow> op_CLOSE_UPVALUE vm r
       | OP_RETURN \<Rightarrow> op_RETURN vm r
       | OP_CLASS \<Rightarrow> op_CLASS vm r
       | OP_INHERIT \<Rightarrow> op_INHERIT vm r
       | OP_METHOD \<Rightarrow> op_METHOD vm r
     }"

text \<open>The loop of \<^verbatim>\<open>run\<close>: instructions are executed until one of them returns.\<close>

partial_function (option) run_loop ::
  "'n platform \<Rightarrow> 'n VM \<Rightarrow> regs \<Rightarrow> (InterpretResult \<times> 'n VM) option" where
  "run_loop P vm r =
     (case step P vm r of
        None \<Rightarrow> None
      | Some (Finished result vm') \<Rightarrow> Some (result, vm')
      | Some (Dispatch vm' r') \<Rightarrow> run_loop P vm' r')"

declare run_loop.simps [code]

definition run :: "'n platform \<Rightarrow> 'n VM \<Rightarrow> (InterpretResult \<times> 'n VM) option" where
  "run P vm = do { r \<leftarrow> LOAD_FRAME vm; run_loop P vm r }"

text \<open>
  \<^verbatim>\<open>interpret\<close>. The result of \<^verbatim>\<open>call(closure, 0)\<close> is not looked at.
\<close>

definition interpret_vm :: "'n platform \<Rightarrow> string \<Rightarrow> 'n VM \<Rightarrow> (InterpretResult \<times> 'n VM) option" where
  "interpret_vm P source vm =
     (case compile P source vm of
        (None, vm0) \<Rightarrow> Some (INTERPRET_COMPILE_ERROR, vm0)
      | (Some function, vm0) \<Rightarrow>
          do {
            vm1 \<leftarrow> push (OBJ_VAL function) vm0;
            (c, vm2) \<leftarrow> newClosure function vm1;
            (v, vm3) \<leftarrow> pop vm2;
            vm4 \<leftarrow> push (OBJ_VAL c) vm3;
            (ok, vm5) \<leftarrow> call c 0 vm4;
            run P vm5
          })"

subsection \<open>The list of open upvalues\<close>

text \<open>
  \<open>open_list h p us\<close>: in the heap \<open>h\<close> the \<^verbatim>\<open>next\<close> pointers lead from \<open>p\<close> through the
  upvalue objects at the addresses \<open>map fst us\<close>, in this order, to \<^verbatim>\<open>NULL\<close>, and the
  \<^verbatim>\<open>location\<close> of each of them is the stack slot given by \<open>map snd us\<close>.
\<close>

fun open_list :: "'n Obj list \<Rightarrow> nat option \<Rightarrow> (nat \<times> nat) list \<Rightarrow> bool" where
  "open_list h p [] = (p = None)"
| "open_list h p ((a, j) # us) =
     (p = Some a \<and> a < length h \<and>
      (case h ! a of
         ObjUpvalue loc cl nx \<Rightarrow> loc = StackSlot j \<and> open_list h nx us
       | _ \<Rightarrow> False))"

text \<open>
  The invariant of \<^verbatim>\<open>vm.openUpvalues\<close>: the list holds the open upvalues \<open>us\<close> and their
  slots are strictly decreasing, so that no slot has two open upvalues.
\<close>

definition open_upvalues_ok :: "'n VM \<Rightarrow> (nat \<times> nat) list \<Rightarrow> bool" where
  "open_upvalues_ok vm us \<longleftrightarrow>
     open_list (heap vm) (openUpvalues vm) us \<and> sorted_wrt (>) (map snd us)"

text \<open>The upvalues of the list whose slot is above \<open>i\<close>, and whose slot is \<open>x\<close> or above.\<close>

definition slot_above :: "nat \<Rightarrow> nat \<times> nat \<Rightarrow> bool" where
  "slot_above i = (\<lambda>u. i < snd u)"

definition slot_from :: "nat \<Rightarrow> nat \<times> nat \<Rightarrow> bool" where
  "slot_from x = (\<lambda>u. x \<le> snd u)"

text \<open>The pointer that leads to a list of upvalues: its first address, or \<^verbatim>\<open>NULL\<close>.\<close>

definition list_head :: "(nat \<times> nat) list \<Rightarrow> nat option" where
  "list_head us = (case us of [] \<Rightarrow> None | u # rest \<Rightarrow> Some (fst u))"

text \<open>The state a runtime error leaves behind.\<close>

definition was_reset :: "'n VM \<Rightarrow> bool" where
  "was_reset vm \<longleftrightarrow> stackTop vm = 0 \<and> frameCount vm = 0 \<and> openUpvalues vm = None"


text \<open>
  What holds when \<^verbatim>\<open>run\<close> returns: after a runtime error the machine was reset, after
  \<^verbatim>\<open>INTERPRET_OK\<close> no frame is left.
\<close>

definition finished_ok :: "InterpretResult \<Rightarrow> 'n VM \<Rightarrow> bool" where
  "finished_ok res vm \<longleftrightarrow>
     (res = INTERPRET_RUNTIME_ERROR \<and> was_reset vm) \<or> (res = INTERPRET_OK \<and> frameCount vm = 0)"

subsection \<open>A small machine\<close>

text \<open>
  A machine with a stack of eight slots holding the numbers 10 to 17, five of them in use,
  and two open upvalues, on the slots 3 and 1. Numbers are integers here.
\<close>

definition small_vm :: "int VM" where
  "small_vm =
     \<lparr>frames = [], frameCount = 0,
      stack = map NUMBER_VAL [10, 11, 12, 13, 14, 15, 16, 17], stackTop = 5,
      globals = Map.empty, strings = Map.empty, initString = None,
      openUpvalues = Some 0,
      heap = [ObjUpvalue (StackSlot 3) NIL_VAL (Some 1), ObjUpvalue (StackSlot 1) NIL_VAL None],
      out = [], err = []\<rparr>"

subsection \<open>A platform and a script for examples\<close>

text \<open>
  A platform for examples: the opcodes are numbered in the order of the cases of \<^verbatim>\<open>run\<close>,
  numbers are integers, nothing is printed for a value, the clock and the allocation
  counter stand still, and the compiler rejects every source.
\<close>

definition opcode_order :: "OpCode list" where
  "opcode_order =
     [OP_CONSTANT, OP_NIL, OP_TRUE, OP_FALSE, OP_POP, OP_GET_LOCAL, OP_SET_LOCAL,
      OP_GET_GLOBAL, OP_DEFINE_GLOBAL, OP_SET_GLOBAL, OP_GET_UPVALUE, OP_SET_UPVALUE,
      OP_GET_PROPERTY, OP_SET_PROPERTY, OP_GET_SUPER, OP_EQUAL, OP_GREATER, OP_LESS,
      OP_ADD, OP_SUBTRACT, OP_MULTIPLY, OP_DIVIDE, OP_NOT, OP_NEGATE, OP_PRINT, OP_JUMP,
      OP_JUMP_IF_FALSE, OP_LOOP, OP_CALL, OP_INVOKE, OP_SUPER_INVOKE, OP_CLOSURE,
      OP_CLOSE_UPVALUE, OP_RETURN, OP_CLASS, OP_INHERIT, OP_METHOD]"

definition small_platform :: "int platform" where
  "small_platform =
     \<lparr>decode = (\<lambda>b. if unat b < length opcode_order then Some (opcode_order ! unat b) else None),
      num_add = (+), num_sub = (-), num_mul = (*), num_div = (div),
      num_less = (<), num_greater = (>), num_neg = uminus, num_equal = (=),
      double_as_value = NUMBER_VAL,
      printValue = (\<lambda>h v. []),
      clock_seconds = 0,
      bytesAllocated = (\<lambda>vm. 0),
      collectGarbage = (\<lambda>vm. vm),
      double_of_int = (\<lambda>i. i),
      compile = (\<lambda>source vm. (None, vm))\<rparr>"

text \<open>
  A machine in the middle of a script: the object 0 is the script function with the byte
  code \<open>bytes\<close> (all on line 1) and the constants \<open>consts\<close>, the object 1 its closure,
  \<open>objs\<close> are further objects, from the address 2 on. The one frame is the frame of the
  script, with its \<open>ip\<close> at \<open>pc\<close>; the stack holds the closure and then the values \<open>vals\<close>,
  in an array of eight slots.
\<close>

definition script_vm :: "8 word list \<Rightarrow> int Value list \<Rightarrow> int Obj list \<Rightarrow> nat \<Rightarrow> int Value list \<Rightarrow> int VM" where
  "script_vm bytes consts objs pc vals =
     \<lparr>frames = [\<lparr>closure = 1, ip = pc, slots = 0\<rparr>, \<lparr>closure = 0, ip = 0, slots = 0\<rparr>],
      frameCount = 1,
      stack = take 8 (OBJ_VAL 1 # vals @ replicate 7 NIL_VAL),
      stackTop = 1 + length vals,
      globals = Map.empty, strings = Map.empty, initString = None, openUpvalues = None,
      heap = [ObjFunction 0 0 None (Chunk bytes (replicate (length bytes) 1) consts),
              ObjClosure 0 []] @ objs,
      out = [], err = []\<rparr>"

text \<open>The registers of \<^verbatim>\<open>run\<close> in the frame of the script, with \<^verbatim>\<open>ip\<close> at \<open>pc\<close>.\<close>

definition script_regs :: "nat \<Rightarrow> regs" where
  "script_regs pc = \<lparr>frame = 0, stackStart = 0, reg_ip = pc, fn = 0\<rparr>"

section \<open>Properties of the scanner\<close>


lemma strlen_le: "strlen src \<le> length src"
  by (simp add: strlen_def length_takeWhile_le)

lemma char_at_strlen: "char_at src (strlen src) = CHR 0x00"
proof (cases "strlen src < length src")
  case True
  then have "\<not> (src ! strlen src \<noteq> CHR 0x00)"
    unfolding strlen_def by (rule nth_length_takeWhile)
  with True show ?thesis by (simp add: char_at_def)
next
  case False
  then show ?thesis by (simp add: char_at_def)
qed

lemma cursor_lt: "char_at src i \<noteq> CHR 0x00 \<Longrightarrow> i \<le> strlen src \<Longrightarrow> i < strlen src"
  using char_at_strlen [of src] by (cases "i = strlen src") auto

lemma isAlpha_not_nul: "isAlpha c \<Longrightarrow> c \<noteq> CHR 0x00"
  by (auto simp: isAlpha_def)

lemma isDigit_not_nul: "isDigit c \<Longrightarrow> c \<noteq> CHR 0x00"
  by (auto simp: isDigit_def)

lemma isHex_not_nul: "isHex c \<Longrightarrow> c \<noteq> CHR 0x00"
  by (auto simp: isHex_def)


text \<open>One induction for every simple loop of the scanner.\<close>

lemma loop_returns:
  assumes eq: "\<And>s. L s = (if c s then L (g s) else Some s)"
    and step: "\<And>s. c s \<Longrightarrow> current s \<le> strlen src \<Longrightarrow>
                 current s < strlen src \<and> current (g s) = current s + 1 \<and> start (g s) = start s"
    and inside: "current s \<le> strlen src"
  shows "\<exists>s'. L s = Some s' \<and> advances src s s' \<and> \<not> c s'"
  using inside
proof (induction "strlen src - current s" arbitrary: s rule: less_induct)
  case less
  show ?case
  proof (cases "c s")
    case True
    from step [OF True less.prems]
    have lt: "current s < strlen src" and g: "current (g s) = current s + 1" "start (g s) = start s"
      by simp_all
    have "\<exists>s'. L (g s) = Some s' \<and> advances src (g s) s' \<and> \<not> c s'"
      by (rule less.hyps) (use lt g in simp_all)
    then obtain s' where "L (g s) = Some s'" "advances src (g s) s'" "\<not> c s'"
      by blast
    with True g show ?thesis
      by (subst eq) (auto simp: advances_def)
  next
    case False
    with less.prems show ?thesis
      by (subst eq) (auto simp: advances_def)
  qed
qed

lemma skipComment_returns:
  "current s \<le> strlen src \<Longrightarrow>
   \<exists>s'. skipComment src s = Some s' \<and> advances src s s'
        \<and> \<not> (peek src s' \<noteq> CHR 0x0A \<and> \<not> isAtEnd src s')"
  by (rule loop_returns [where L = "skipComment src" and g = advance])
     (auto simp: skipComment.simps [of src] isAtEnd_def advance_def intro: cursor_lt)

lemma identifierLoop_returns:
  "current s \<le> strlen src \<Longrightarrow>
   \<exists>s'. identifierLoop src s = Some s' \<and> advances src s s'
        \<and> \<not> (isAlpha (peek src s') \<or> isDigit (peek src s'))"
  by (rule loop_returns [where L = "identifierLoop src" and g = advance])
     (auto simp: identifierLoop.simps [of src] peek_def advance_def
           intro: cursor_lt dest: isAlpha_not_nul isDigit_not_nul)

lemma hexLoop_returns:
  "current s \<le> strlen src \<Longrightarrow>
   \<exists>s'. hexLoop src s = Some s' \<and> advances src s s'
        \<and> \<not> (isDigit (peek src s') \<or> isHex (peek src s'))"
  by (rule loop_returns [where L = "hexLoop src" and g = advance])
     (auto simp: hexLoop.simps [of src] peek_def advance_def
           intro: cursor_lt dest: isHex_not_nul isDigit_not_nul)

lemma digitLoop_returns:
  "current s \<le> strlen src \<Longrightarrow>
   \<exists>s'. digitLoop src s = Some s' \<and> advances src s s' \<and> \<not> isDigit (peek src s')"
  by (rule loop_returns [where L = "digitLoop src" and g = advance])
     (auto simp: digitLoop.simps [of src] peek_def advance_def
           intro: cursor_lt dest: isDigit_not_nul)

lemma stringLoop_returns:
  "current s \<le> strlen src \<Longrightarrow>
   \<exists>s'. stringLoop src s = Some s' \<and> advances src s s'
        \<and> \<not> (peek src s' \<noteq> CHR 0x22 \<and> \<not> isAtEnd src s')"
  by (rule loop_returns [where L = "stringLoop src"
        and g = "\<lambda>s. advance (if peek src s = CHR 0x0A then s\<lparr>line := line s + 1\<rparr> else s)"])
     (auto simp: stringLoop.simps [of src] isAtEnd_def advance_def intro: cursor_lt)


lemma skipComment_slash:
  "peek src s = CHR ''/'' \<Longrightarrow> skipComment src s = skipComment src (advance s)"
  by (subst skipComment.simps) (simp add: isAtEnd_def peek_def)

lemma skipWhitespace_returns:
  "current s \<le> strlen src \<Longrightarrow> \<exists>s'. skipWhitespace src s = Some s' \<and> advances src s s'"
proof (induction "strlen src - current s" arbitrary: s rule: less_induct)
  case less
  let ?c = "peek src s"
  consider (blank) "?c = CHR '' '' \<or> ?c = CHR 0x0D \<or> ?c = CHR 0x09"
    | (newline) "?c = CHR 0x0A"
    | (comment) "?c = CHR ''/''" "peekNext src s = CHR ''/''"
    | (slash) "?c = CHR ''/''" "peekNext src s \<noteq> CHR ''/''"
    | (other) "?c \<noteq> CHR '' ''" "?c \<noteq> CHR 0x0D" "?c \<noteq> CHR 0x09" "?c \<noteq> CHR 0x0A" "?c \<noteq> CHR ''/''"
    by blast
  then show ?case
  proof cases
    case blank
    then have lt: "current s < strlen src"
      using less.prems by (auto simp: peek_def intro: cursor_lt)
    have "\<exists>s'. skipWhitespace src (advance s) = Some s' \<and> advances src (advance s) s'"
      by (rule less.hyps) (use lt in \<open>simp_all add: advance_def\<close>)
    with blank show ?thesis
      by (subst skipWhitespace.simps) (auto simp: advances_def advance_def)
  next
    case newline
    then have lt: "current s < strlen src"
      using less.prems by (auto simp: peek_def intro: cursor_lt)
    let ?s = "advance (s\<lparr>line := line s + 1\<rparr>)"
    have "\<exists>s'. skipWhitespace src ?s = Some s' \<and> advances src ?s s'"
      by (rule less.hyps) (use lt in \<open>simp_all add: advance_def\<close>)
    with newline show ?thesis
      by (subst skipWhitespace.simps) (auto simp: advances_def advance_def)
  next
    case comment
    then have lt: "current s < strlen src"
      using less.prems by (auto simp: peek_def intro: cursor_lt)
    then obtain s1 where s1: "skipComment src (advance s) = Some s1" "advances src (advance s) s1"
      using skipComment_returns [of "advance s" src] by (auto simp: advance_def)
    have "\<exists>s'. skipWhitespace src s1 = Some s' \<and> advances src s1 s'"
      by (rule less.hyps) (use lt s1 in \<open>auto simp: advance_def advances_def\<close>)
    with comment s1 show ?thesis
      by (subst skipWhitespace.simps)
         (auto simp: skipComment_slash advances_def advance_def)
  next
    case slash
    with less.prems show ?thesis
      by (subst skipWhitespace.simps) (auto simp: advances_def)
  next
    case other
    with less.prems show ?thesis
      by (subst skipWhitespace.simps) (auto simp: advances_def)
  qed
qed

lemma scanned_makeToken:
  "start s \<le> current s \<Longrightarrow> current s \<le> strlen src \<Longrightarrow> current s0 \<le> current s \<Longrightarrow>
   scanned src s0 (Some (makeToken ty s, s))"
  by (simp add: scanned_def source_slice_def makeToken_def)

lemma identifier_scanned:
  assumes "start s \<le> current s" "current s \<le> strlen src" "current s0 \<le> current s"
  shows "scanned src s0 (identifier_tok kw src s)"
proof -
  obtain s' where "identifierLoop src s = Some s'" "advances src s s'"
    using identifierLoop_returns [OF assms(2)] by blast
  with assms show ?thesis
    by (simp add: identifier_tok_def advances_def scanned_makeToken)
qed

lemma number_scanned:
  assumes "start s \<le> current s" "current s \<le> strlen src" "current s0 \<le> current s"
  shows "scanned src s0 (number_tok src s)"
proof (cases "char_at src (current s - 1) = CHR ''0''
         \<and> (peek src s = CHR ''x'' \<or> peek src s = CHR ''X'')")
  case True
  then have lt: "current s < strlen src"
    using assms(2) by (auto simp: peek_def intro: cursor_lt)
  then obtain s' where "hexLoop src (advance s) = Some s'" "advances src (advance s) s'"
    using hexLoop_returns [of "advance s" src] by (auto simp: advance_def)
  with True assms show ?thesis
    by (auto simp: number_tok_def advances_def advance_def scanned_makeToken)
next
  case False
  obtain s1 where s1: "digitLoop src s = Some s1" "advances src s s1"
    using digitLoop_returns [OF assms(2)] by blast
  show ?thesis
  proof (cases "peek src s1 = CHR ''.'' \<and> isDigit (peekNext src s1)")
    case dot: True
    then have lt: "current s1 < strlen src"
      using s1 by (auto simp: peek_def advances_def intro: cursor_lt)
    then obtain s' where "digitLoop src (advance s1) = Some s'" "advances src (advance s1) s'"
      using digitLoop_returns [of "advance s1" src] by (auto simp: advance_def)
    with False dot s1 assms show ?thesis
      by (auto simp: number_tok_def advances_def advance_def scanned_makeToken)
  next
    case nodot: False
    with False s1 assms show ?thesis
      by (auto simp: number_tok_def advances_def scanned_makeToken)
  qed
qed

lemma string_scanned:
  assumes "start s \<le> current s" "current s \<le> strlen src" "current s0 \<le> current s"
  shows "scanned src s0 (string_tok src s)"
proof -
  obtain s1 where s1: "stringLoop src s = Some s1" "advances src s s1"
    using stringLoop_returns [OF assms(2)] by blast
  show ?thesis
  proof (cases "isAtEnd src s1")
    case True
    with s1 assms show ?thesis
      by (simp add: string_tok_def scanned_def advances_def)
  next
    case False
    then have "current s1 < strlen src"
      using s1 by (auto simp: isAtEnd_def advances_def intro: cursor_lt)
    with False s1 assms show ?thesis
      by (simp add: string_tok_def advances_def advance_def scanned_makeToken)
  qed
qed

lemma match_scanned:
  assumes "start s \<le> current s" "current s \<le> strlen src" "current s0 \<le> current s"
  shows "scanned src s0 (Some (matchToken src expected yes no s))"
proof -
  have "\<not> isAtEnd src s \<Longrightarrow> current s < strlen src"
    using assms(2) by (auto simp: isAtEnd_def intro: cursor_lt)
  with assms show ?thesis
    by (auto simp: matchToken_def match_def intro!: scanned_makeToken)
qed

lemma scanToken_scanned:
  assumes "current s \<le> strlen src"
  shows "scanned src s (scanToken kw src s)"
proof -
  obtain s1 where s1: "skipWhitespace src s = Some s1" "advances src s s1"
    using skipWhitespace_returns [OF assms] by blast
  define s2 where "s2 = s1\<lparr>start := current s1\<rparr>"
  have s2: "start s2 = current s2" "current s \<le> current s2" "current s2 \<le> strlen src"
    using s1 by (simp_all add: s2_def advances_def)
  show ?thesis
  proof (cases "isAtEnd src s2")
    case True
    with s1 s2 show ?thesis
      by (simp add: scanToken_def s2_def [symmetric] scanned_makeToken)
  next
    case False
    then have "current s2 < strlen src"
      using s2 by (auto simp: isAtEnd_def intro: cursor_lt)
    then have adv: "start (advance s2) \<le> current (advance s2)"
        "current (advance s2) \<le> strlen src" "current s \<le> current (advance s2)"
      using s2 by (simp_all add: advance_def)
    have err: "scanned src s (Some (errorToken ''Unexpected character.'' (advance s2), advance s2))"
      using adv by (simp add: scanned_def)
    from False s1 show ?thesis
      by (simp add: scanToken_def s2_def [symmetric] Let_def
            identifier_scanned [OF adv] number_scanned [OF adv] string_scanned [OF adv]
            match_scanned [OF adv] scanned_makeToken [OF adv] err)
  qed
qed



section \<open>Properties of the list of open upvalues\<close>

lemma open_list_member:
  "open_list h p us \<Longrightarrow> (a, j) \<in> set us \<Longrightarrow>
   a < length h \<and> (\<exists>cl nx. h ! a = ObjUpvalue (StackSlot j) cl nx)"
  by (induction us arbitrary: p) (auto split: Obj.splits)

lemma open_list_cong:
  "open_list h p us \<Longrightarrow> length h \<le> length h' \<Longrightarrow>
   (\<And>a. a \<in> fst ` set us \<Longrightarrow> h' ! a = h ! a) \<Longrightarrow> open_list h' p us"
proof (induction us arbitrary: p)
  case Nil
  then show ?case by simp
next
  case (Cons u us)
  obtain a j where u: "u = (a, j)" by (cases u)
  from Cons.prems(1) u obtain cl nx where a: "p = Some a" "a < length h"
      "h ! a = ObjUpvalue (StackSlot j) cl nx" "open_list h nx us"
    by (auto split: Obj.splits)
  have "h' ! a = h ! a" using Cons.prems(3) [of a] u by simp
  moreover have "open_list h' nx us"
    by (rule Cons.IH [OF a(4)]) (use Cons.prems in auto)
  ultimately show ?case
    using Cons.prems(2) u a by simp
qed

lemma open_list_distinct:
  assumes "open_list h p us" "sorted_wrt (>) (map snd us)"
  shows "distinct (map fst us)"
  using assms
proof (induction us arbitrary: p)
  case Nil
  then show ?case by simp
next
  case (Cons u us)
  obtain a j where u: "u = (a, j)" by (cases u)
  from Cons.prems u obtain cl nx where a: "h ! a = ObjUpvalue (StackSlot j) cl nx" "open_list h nx us"
    by (auto split: Obj.splits)
  have "a \<notin> fst ` set us"
  proof
    assume "a \<in> fst ` set us"
    then obtain j' where m: "(a, j') \<in> set us" by auto
    with a(2) have "\<exists>cl nx. h ! a = ObjUpvalue (StackSlot j') cl nx"
      using open_list_member by blast
    with a(1) have "j' = j" by auto
    moreover from Cons.prems(2) u m have "j' < j" by auto
    ultimately show False by simp
  qed
  moreover have "distinct (map fst us)"
    using Cons.IH [OF a(2)] Cons.prems(2) by simp
  ultimately show ?case using u by simp
qed

lemma capture_walk_list:
  assumes "open_list (heap vm) p us"
  shows "capture_walk vm (StackSlot i) prev p =
     Some (if takeWhile (slot_above i) us = [] then prev else Some (fst (last (takeWhile (slot_above i) us))),
           list_head (dropWhile (slot_above i) us))"
  using assms
proof (induction us arbitrary: p prev)
  case Nil
  then show ?case by (subst capture_walk.simps) (simp add: list_head_def)
next
  case (Cons u us)
  obtain a j where u: "u = (a, j)" by (cases u)
  from Cons.prems u obtain cl nx where a: "p = Some a" "a < length (heap vm)"
      "heap vm ! a = ObjUpvalue (StackSlot j) cl nx" "open_list (heap vm) nx us"
    by (auto split: Obj.splits)
  show ?case
  proof (cases "i < j")
    case True
    have "capture_walk vm (StackSlot i) prev p = capture_walk vm (StackSlot i) (Some a) nx"
      using a True by (subst capture_walk.simps) (simp add: upvalue_at_def obj_at_def)
    also note Cons.IH [OF a(4), of "Some a"]
    finally show ?thesis using True u by (simp add: slot_above_def list_head_def)
  next
    case False
    then show ?thesis
      using a u by (subst capture_walk.simps) (simp add: upvalue_at_def obj_at_def slot_above_def list_head_def)
  qed
qed


lemma open_list_head: "open_list h p us \<Longrightarrow> p = list_head us"
  by (cases us) (auto simp: list_head_def)

lemma open_list_suffix:
  "open_list h p (pre @ post) \<Longrightarrow> open_list h (list_head post) post"
proof (induction pre arbitrary: p)
  case Nil
  then show ?case using open_list_head [of h p post] by simp
next
  case (Cons x pre)
  then show ?case by (cases x) (auto split: Obj.splits)
qed

lemma open_list_relink:
  assumes "open_list h p (pre @ post)" and "pre \<noteq> []" and "length h \<le> length h'"
    and "\<And>a. a \<in> fst ` set (butlast pre) \<Longrightarrow> h' ! a = h ! a"
    and "h ! fst (last pre) = ObjUpvalue loc cl nx"
    and "h' ! fst (last pre) = ObjUpvalue loc cl (Some u)"
    and "open_list h' (Some u) rest"
  shows "open_list h' p (pre @ rest)"
  using assms(1,2,4,5,6)
proof (induction pre arbitrary: p)
  case Nil
  then show ?case by simp
next
  case (Cons x pre)
  obtain a j where x: "x = (a, j)" by (cases x)
  from Cons.prems(1) x obtain cl' nx' where a: "p = Some a" "a < length h"
      "h ! a = ObjUpvalue (StackSlot j) cl' nx'" "open_list h nx' (pre @ post)"
    by (auto split: Obj.splits)
  show ?case
  proof (cases "pre = []")
    case True
    with Cons.prems x a assms(3,7) show ?thesis by auto
  next
    case False
    have "h' ! a = h ! a"
      using Cons.prems(3) [of a] x False by simp
    moreover have "open_list h' nx' (pre @ rest)"
      by (rule Cons.IH [OF a(4) False]) (use Cons.prems False in auto)
    ultimately show ?thesis
      using x a assms(3) by simp
  qed
qed

lemma sorted_split:
  assumes "sorted_wrt (>) (map snd us)"
  shows "\<forall>x \<in> set (takeWhile (slot_above i) us). i < snd x"
    and "\<forall>y \<in> set (dropWhile (slot_above i) us). snd y \<le> i"
proof -
  show "\<forall>x \<in> set (takeWhile (slot_above i) us). i < snd x"
    by (auto dest: set_takeWhileD simp: slot_above_def)
  show "\<forall>y \<in> set (dropWhile (slot_above i) us). snd y \<le> i"
    using assms
  proof (induction us)
    case Nil
    then show ?case by simp
  next
    case (Cons u us)
    show ?case
    proof (cases "slot_above i u")
      case True
      with Cons show ?thesis by simp
    next
      case False
      then have "snd u \<le> i" by (simp add: slot_above_def)
      moreover have "\<forall>y \<in> set us. snd y < snd u"
        using Cons.prems by auto
      ultimately show ?thesis
        using False by auto
    qed
  qed
qed

lemma slot_on_list:
  assumes "sorted_wrt (>) (map snd us)"
  shows "i \<in> snd ` set us \<longleftrightarrow>
         (\<exists>a rest. dropWhile (slot_above i) us = (a, i) # rest)"
  using assms
proof (induction us)
  case Nil
  then show ?case by simp
next
  case (Cons u us)
  show ?case
  proof (cases "slot_above i u")
    case True
    then have "i \<noteq> snd u" by (simp add: slot_above_def)
    with True Cons show ?thesis by auto
  next
    case False
    then have le: "snd u \<le> i" by (simp add: slot_above_def)
    have "\<forall>y \<in> set us. snd y < snd u"
      using Cons.prems by auto
    with le have "i \<in> snd ` set us \<Longrightarrow> False"
      by auto
    with False show ?thesis
      by (cases u) auto
  qed
qed

lemma sorted_insert_slot:
  assumes "sorted_wrt (>) (map snd us)" and "i \<notin> snd ` set us"
  shows "sorted_wrt (>) (map snd (takeWhile (slot_above i) us @ (u, i) # dropWhile (slot_above i) us))"
proof -
  let ?pre = "takeWhile (slot_above i) us" and ?post = "dropWhile (slot_above i) us"
  have us: "us = ?pre @ ?post" by simp
  have "sorted_wrt (>) (map snd (?pre @ ?post))"
    using assms(1) by simp
  then have parts: "sorted_wrt (>) (map snd ?pre)" "sorted_wrt (>) (map snd ?post)"
      "\<forall>x \<in> set ?pre. \<forall>y \<in> set ?post. snd y < snd x"
    unfolding map_append sorted_wrt_append by auto
  have hi: "\<forall>x \<in> set ?pre. i < snd x"
    using sorted_split(1) [OF assms(1)] .
  have "\<forall>y \<in> set ?post. snd y \<le> i"
    using sorted_split(2) [OF assms(1)] .
  moreover have "\<forall>y \<in> set ?post. snd y \<noteq> i"
    using assms(2) by (auto dest: set_dropWhileD)
  ultimately have lo: "\<forall>y \<in> set ?post. snd y < i"
    by (simp add: order_le_less)
  show ?thesis
    using parts hi lo unfolding map_append sorted_wrt_append by auto
qed

lemma captureUpvalue_existing:
  assumes "open_upvalues_ok vm us" and "i \<in> snd ` set us"
  shows "\<exists>a. (a, i) \<in> set us \<and> captureUpvalue (StackSlot i) vm = Some (a, vm)"
proof -
  from assms(1) have ol: "open_list (heap vm) (openUpvalues vm) us"
    and srt: "sorted_wrt (>) (map snd us)"
    by (simp_all add: open_upvalues_ok_def)
  from assms(2) obtain a rest where post: "dropWhile (slot_above i) us = (a, i) # rest"
    using slot_on_list [OF srt, of i] by blast
  then have "(a, i) \<in> set (dropWhile (slot_above i) us)" by simp
  then have mem: "(a, i) \<in> set us" by (rule set_dropWhileD)
  then obtain cl nx where "a < length (heap vm)" "heap vm ! a = ObjUpvalue (StackSlot i) cl nx"
    using open_list_member [OF ol] by blast
  then have up: "upvalue_at vm a = Some (StackSlot i, cl, nx)"
    by (simp add: upvalue_at_def obj_at_def)
  have "captureUpvalue (StackSlot i) vm = Some (a, vm)"
    by (simp add: captureUpvalue_def capture_walk_list [OF ol] post list_head_def up)
  with mem show ?thesis by blast
qed

lemma captureUpvalue_new:
  assumes "open_upvalues_ok vm us" and "i \<notin> snd ` set us"
  shows "\<exists>vm'. captureUpvalue (StackSlot i) vm = Some (length (heap vm), vm')
           \<and> open_upvalues_ok vm'
                (takeWhile (slot_above i) us @ (length (heap vm), i) # dropWhile (slot_above i) us)
           \<and> vm' = vm\<lparr>heap := heap vm', openUpvalues := openUpvalues vm'\<rparr>
           \<and> length (heap vm') = Suc (length (heap vm))"
proof -
  define h where "h = heap vm"
  define pre where "pre = takeWhile (slot_above i) us"
  define post where "post = dropWhile (slot_above i) us"
  define u where "u = length h"
  define new where "new = (ObjUpvalue (StackSlot i) NIL_VAL (list_head post) :: 'a Obj)"
  from assms(1) have ol: "open_list h (openUpvalues vm) us"
    and srt: "sorted_wrt (>) (map snd us)"
    by (simp_all add: open_upvalues_ok_def h_def)
  have us: "us = pre @ post" by (simp add: pre_def post_def)
  have dist: "distinct (map fst (pre @ post))"
    using open_list_distinct [OF ol srt] us by simp
  have in_h: "a < length h" if "a \<in> fst ` set us" for a
    using that open_list_member [OF ol] by auto
  have walk: "capture_walk vm (StackSlot i) None (openUpvalues vm)
      = Some (if pre = [] then None else Some (fst (last pre)), list_head post)"
    using capture_walk_list [of vm "openUpvalues vm" us i None] ol
    by (simp add: h_def pre_def post_def)
  have existing: "(case list_head post of None \<Rightarrow> Some None
          | Some a \<Rightarrow> do { (loc, cl, nx) \<leftarrow> upvalue_at vm a;
                           Some (if loc = StackSlot i then Some a else None) }) = Some None"
  proof (cases post)
    case Nil
    then show ?thesis by (simp add: list_head_def)
  next
    case (Cons x rest)
    obtain a j where x: "x = (a, j)" by (cases x)
    have "(a, j) \<in> set us" using us Cons x by simp
    then obtain cl nx where "a < length h" "h ! a = ObjUpvalue (StackSlot j) cl nx"
      using open_list_member [OF ol] by blast
    moreover have "j \<noteq> i"
      using assms(2) \<open>(a, j) \<in> set us\<close> by force
    ultimately show ?thesis
      using Cons x by (simp add: list_head_def upvalue_at_def obj_at_def h_def)
  qed
  have at_u: "(h @ [x]) ! u = x" "(h @ [x])[u := y] = h @ [y]" "u < Suc (length h)" for x y :: "'a Obj"
    by (simp_all add: u_def)
  have post_ok: "open_list h (list_head post) post"
    using ol unfolding us by (rule open_list_suffix)
  have srt': "sorted_wrt (>) (map snd (pre @ (u, i) # post))"
    unfolding pre_def post_def by (rule sorted_insert_slot [OF srt assms(2)])
  show ?thesis
  proof (cases "pre = []")
    case True
    define vm' where "vm' = vm\<lparr>heap := h @ [new], openUpvalues := Some u\<rparr>"
    have "captureUpvalue (StackSlot i) vm = Some (u, vm')"
      using True
      by (simp add: captureUpvalue_def walk existing newUpvalue_def allocate_def set_next_def
            obj_at_def h_def [symmetric] u_def [symmetric] new_def vm'_def at_u)
    moreover have "open_list (heap vm') (openUpvalues vm') (pre @ (u, i) # post)"
    proof -
      have "open_list (h @ [new]) (list_head post) post"
        using post_ok by (rule open_list_cong) (use in_h us in \<open>auto simp: nth_append\<close>)
      then show ?thesis
        using True by (simp add: vm'_def new_def at_u)
    qed
    then have "open_upvalues_ok vm' (pre @ (u, i) # post)"
      using srt' by (simp add: open_upvalues_ok_def)
    moreover have "vm' = vm\<lparr>heap := heap vm', openUpvalues := openUpvalues vm'\<rparr>"
      by (simp add: vm'_def)
    moreover have "length (heap vm') = Suc (length (heap vm))"
      by (simp add: vm'_def h_def)
    ultimately show ?thesis
      unfolding u_def h_def pre_def post_def by blast
  next
    case False
    obtain pl jl where lst: "last pre = (pl, jl)" by (cases "last pre")
    have pl_mem: "(pl, jl) \<in> set pre"
      using False lst last_in_set [of pre] by simp
    then have "(pl, jl) \<in> set us" using us by simp
    then obtain cl nx where pl: "pl < length h" "h ! pl = ObjUpvalue (StackSlot jl) cl nx"
      using open_list_member [OF ol] by blast
    define h' where "h' = (h @ [new])[pl := ObjUpvalue (StackSlot jl) cl (Some u)]"
    define vm' where "vm' = vm\<lparr>heap := h'\<rparr>"
    have "captureUpvalue (StackSlot i) vm = Some (u, vm')"
      using False lst pl
      by (simp add: captureUpvalue_def walk existing newUpvalue_def allocate_def set_next_def
            obj_at_def h_def [symmetric] u_def [symmetric] new_def nth_append vm'_def h'_def at_u)
    moreover have "open_list h' (openUpvalues vm) (pre @ (u, i) # post)"
    proof (rule open_list_relink [where h = h and post = post and loc = "StackSlot jl" and cl = cl and nx = nx])
      show "open_list h (openUpvalues vm) (pre @ post)" using ol us by simp
      show "pre \<noteq> []" by (rule False)
      show "length h \<le> length h'" by (simp add: h'_def)
      show "h ! fst (last pre) = ObjUpvalue (StackSlot jl) cl nx" using lst pl by simp
      show "h' ! fst (last pre) = ObjUpvalue (StackSlot jl) cl (Some u)"
        using lst pl by (simp add: h'_def)
      show "h' ! a = h ! a" if "a \<in> fst ` set (butlast pre)" for a
      proof -
        have "pre = butlast pre @ [(pl, jl)]"
          using False lst by (metis append_butlast_last_id)
        then have "distinct (map fst (butlast pre @ [(pl, jl)]))"
          using dist by (metis distinct_append map_append)
        with that have "a \<noteq> pl" by auto
        moreover have "a < length h"
          using that in_h us by (auto dest: in_set_butlastD)
        ultimately show ?thesis by (simp add: h'_def nth_append)
      qed
      show "open_list h' (Some u) ((u, i) # post)"
      proof -
        have "pl \<notin> fst ` set post"
          using dist pl_mem by force
        have "open_list h' (list_head post) post"
          using post_ok
        proof (rule open_list_cong)
          show "length h \<le> length h'" by (simp add: h'_def)
          show "h' ! a = h ! a" if "a \<in> fst ` set post" for a
          proof -
            have "a \<noteq> pl" using that \<open>pl \<notin> fst ` set post\<close> by auto
            moreover have "a < length h" using that in_h us by auto
            ultimately show ?thesis by (simp add: h'_def nth_append)
          qed
        qed
        moreover have "h' ! u = new"
          using pl by (simp add: h'_def u_def)
        ultimately show ?thesis
          by (simp add: h'_def u_def new_def)
      qed
    qed
    then have "open_upvalues_ok vm' (pre @ (u, i) # post)"
      using srt' by (simp add: open_upvalues_ok_def vm'_def)
    moreover have "vm' = vm\<lparr>heap := heap vm', openUpvalues := openUpvalues vm'\<rparr>"
      by (simp add: vm'_def)
    moreover have "length (heap vm') = Suc (length (heap vm))"
      by (simp add: vm'_def h'_def h_def)
    ultimately show ?thesis
      unfolding u_def h_def pre_def post_def by blast
  qed
qed

lemma sorted_split_from:
  assumes "sorted_wrt (>) (map snd us)"
  shows "\<forall>y \<in> set (dropWhile (slot_from x) us). snd y < x"
  using assms
proof (induction us)
  case Nil
  then show ?case by simp
next
  case (Cons u us)
  show ?case
  proof (cases "slot_from x u")
    case True
    with Cons show ?thesis by simp
  next
    case False
    then have "snd u < x" by (simp add: slot_from_def)
    moreover have "\<forall>y \<in> set us. snd y < snd u"
      using Cons.prems by auto
    ultimately show ?thesis
      using False by auto
  qed
qed

lemma takeWhile_from_set:
  assumes "sorted_wrt (>) (map snd us)"
  shows "set (takeWhile (slot_from x) us) = {u \<in> set us. x \<le> snd u}"
proof -
  have "set us = set (takeWhile (slot_from x) us) \<union> set (dropWhile (slot_from x) us)"
    by (metis set_append takeWhile_dropWhile_id)
  moreover have "\<forall>u \<in> set (takeWhile (slot_from x) us). x \<le> snd u"
    by (auto dest: set_takeWhileD simp: slot_from_def)
  moreover note sorted_split_from [OF assms, of x]
  ultimately show ?thesis
    by (auto dest: set_takeWhileD)
qed

lemma closeUpvalues_list:
  assumes "open_list (heap vm) (openUpvalues vm) us" and "sorted_wrt (>) (map snd us)"
    and "\<forall>u \<in> set us. snd u < length (stack vm)"
  shows "\<exists>vm'. closeUpvalues (StackSlot x) vm = Some vm'
      \<and> open_list (heap vm') (openUpvalues vm') (dropWhile (slot_from x) us)
      \<and> (\<forall>u \<in> set (takeWhile (slot_from x) us).
            \<exists>nx. heap vm' ! fst u = ObjUpvalue (ClosedField (fst u)) (stack vm ! snd u) nx)
      \<and> (\<forall>a. a \<notin> fst ` set (takeWhile (slot_from x) us) \<longrightarrow> heap vm' ! a = heap vm ! a)
      \<and> length (heap vm') = length (heap vm)
      \<and> vm' = vm\<lparr>heap := heap vm', openUpvalues := openUpvalues vm'\<rparr>"
  using assms
proof (induction us arbitrary: vm)
  case Nil
  then show ?case
    by (subst closeUpvalues.simps) simp
next
  case (Cons u us)
  obtain a j where u: "u = (a, j)" by (cases u)
  from Cons.prems(1) u obtain cl nx where a: "openUpvalues vm = Some a" "a < length (heap vm)"
      "heap vm ! a = ObjUpvalue (StackSlot j) cl nx" "open_list (heap vm) nx us"
    by (auto split: Obj.splits)
  have up: "upvalue_at vm a = Some (StackSlot j, cl, nx)"
    using a by (simp add: upvalue_at_def obj_at_def)
  show ?case
  proof (cases "x \<le> j")
    case True
    define vm1 where "vm1 = vm\<lparr>heap := (heap vm)[a := ObjUpvalue (ClosedField a) (stack vm ! j) nx],
                                 openUpvalues := nx\<rparr>"
    have j: "j < length (stack vm)" using Cons.prems(3) u by simp
    have unfold: "closeUpvalues (StackSlot x) vm = closeUpvalues (StackSlot x) vm1"
      using True a(1) j
      by (subst closeUpvalues.simps) (simp add: up read_ptr_def stack_get_def vm1_def)
    have "distinct (map fst (u # us))"
      using open_list_distinct [OF Cons.prems(1,2)] .
    then have fresh: "a \<notin> fst ` set us" using u by simp
    have "open_list ((heap vm)[a := ObjUpvalue (ClosedField a) (stack vm ! j) nx]) nx us"
      using a(4)
    proof (rule open_list_cong)
      show "length (heap vm) \<le> length ((heap vm)[a := ObjUpvalue (ClosedField a) (stack vm ! j) nx])"
        by simp
      show "(heap vm)[a := ObjUpvalue (ClosedField a) (stack vm ! j) nx] ! b = heap vm ! b"
        if "b \<in> fst ` set us" for b
      proof -
        have "b \<noteq> a" using that fresh by blast
        then show ?thesis by simp
      qed
    qed
    then have ol1: "open_list (heap vm1) (openUpvalues vm1) us"
      by (simp add: vm1_def)
    have "\<exists>vm'. closeUpvalues (StackSlot x) vm1 = Some vm'
      \<and> open_list (heap vm') (openUpvalues vm') (dropWhile (slot_from x) us)
      \<and> (\<forall>u \<in> set (takeWhile (slot_from x) us).
            \<exists>nx. heap vm' ! fst u = ObjUpvalue (ClosedField (fst u)) (stack vm1 ! snd u) nx)
      \<and> (\<forall>a. a \<notin> fst ` set (takeWhile (slot_from x) us) \<longrightarrow> heap vm' ! a = heap vm1 ! a)
      \<and> length (heap vm') = length (heap vm1)
      \<and> vm' = vm1\<lparr>heap := heap vm', openUpvalues := openUpvalues vm'\<rparr>"
      by (rule Cons.IH [OF ol1]) (use Cons.prems in \<open>simp_all add: vm1_def\<close>)
    then obtain vm' where vm': "closeUpvalues (StackSlot x) vm1 = Some vm'"
      "open_list (heap vm') (openUpvalues vm') (dropWhile (slot_from x) us)"
      "\<forall>u \<in> set (takeWhile (slot_from x) us).
            \<exists>nx. heap vm' ! fst u = ObjUpvalue (ClosedField (fst u)) (stack vm1 ! snd u) nx"
      "\<forall>a. a \<notin> fst ` set (takeWhile (slot_from x) us) \<longrightarrow> heap vm' ! a = heap vm1 ! a"
      "length (heap vm') = length (heap vm1)"
      "vm' = vm1\<lparr>heap := heap vm', openUpvalues := openUpvalues vm'\<rparr>"
      by blast
    have tw: "takeWhile (slot_from x) (u # us) = u # takeWhile (slot_from x) us"
      and dw: "dropWhile (slot_from x) (u # us) = dropWhile (slot_from x) us"
      using True u by (simp_all add: slot_from_def)
    have "a \<notin> fst ` set (takeWhile (slot_from x) us)"
      using fresh by (auto dest: set_takeWhileD)
    then have "heap vm' ! a = ObjUpvalue (ClosedField a) (stack vm ! j) nx"
      using vm'(4) a(2) by (simp add: vm1_def)
    then have closed: "\<forall>u \<in> set (takeWhile (slot_from x) (u # us)).
            \<exists>nx. heap vm' ! fst u = ObjUpvalue (ClosedField (fst u)) (stack vm ! snd u) nx"
      unfolding tw using vm'(3) u by (simp add: vm1_def)
    have same: "\<forall>b. b \<notin> fst ` set (takeWhile (slot_from x) (u # us)) \<longrightarrow> heap vm' ! b = heap vm ! b"
      unfolding tw using vm'(4) u by (simp add: vm1_def)
    have len: "length (heap vm') = length (heap vm)"
      using vm'(5) by (simp add: vm1_def)
    have rest: "vm' = vm\<lparr>heap := heap vm', openUpvalues := openUpvalues vm'\<rparr>"
      by (subst vm'(6)) (simp add: vm1_def)
    have ret: "closeUpvalues (StackSlot x) vm = Some vm'"
      using unfold vm'(1) by simp
    show ?thesis
      unfolding dw by (intro exI [of _ vm'] conjI ret vm'(2) closed same len rest)
  next
    case False
    then have "closeUpvalues (StackSlot x) vm = Some vm"
      using a(1) by (subst closeUpvalues.simps) (simp add: up)
    moreover have "takeWhile (slot_from x) (u # us) = []" "dropWhile (slot_from x) (u # us) = u # us"
      using False u by (simp_all add: slot_from_def)
    ultimately show ?thesis
      using Cons.prems(1) by simp
  qed
qed

lemma strict_desc_distinct: "sorted_wrt (>) (xs :: nat list) \<Longrightarrow> distinct xs"
  by (induction xs) auto

section \<open>Properties of the dispatch loop\<close>

subsection \<open>Every return of \<^verbatim>\<open>run\<close>\<close>

lemma runtimeError_reset: "runtimeError message vm = Some vm' \<Longrightarrow> was_reset vm'"
  by (auto simp: runtimeError_def resetStack_def was_reset_def bind_eq_Some_conv)

lemma call_failed: "call c argCount vm = Some (False, vm') \<Longrightarrow> was_reset vm'"
  by (auto simp: call_def bind_eq_Some_conv dest: runtimeError_reset
           split: option.splits Obj.splits if_splits)

lemma callValue_failed: "callValue P callee argCount vm = Some (False, vm') \<Longrightarrow> was_reset vm'"
  by (auto simp: callValue_def bind_eq_Some_conv dest: runtimeError_reset call_failed
           split: option.splits Obj.splits if_splits Value.splits prod.splits)

lemma invokeFromClass_failed:
  "invokeFromClass klass name argCount vm = Some (False, vm') \<Longrightarrow> was_reset vm'"
  by (auto simp: invokeFromClass_def bind_eq_Some_conv dest: runtimeError_reset call_failed
           split: option.splits Obj.splits if_splits)

lemma invoke_failed: "invoke P name argCount vm = Some (False, vm') \<Longrightarrow> was_reset vm'"
  by (auto simp: invoke_def bind_eq_Some_conv
           dest: runtimeError_reset callValue_failed invokeFromClass_failed
           split: option.splits if_splits prod.splits)

lemma bindMethod_failed: "bindMethod klass name vm = Some (False, vm') \<Longrightarrow> was_reset vm'"
  by (auto simp: bindMethod_def bind_eq_Some_conv dest: runtimeError_reset
           split: option.splits Obj.splits if_splits prod.splits)

lemma fail_with_reset: "fail_with message r vm = Some (Finished res vm') \<Longrightarrow> was_reset vm'"
  by (auto simp: fail_with_def bind_eq_Some_conv dest: runtimeError_reset)

lemma after_call_reset:
  "after_call res = Some (Finished INTERPRET_RUNTIME_ERROR vm') \<Longrightarrow> fst res \<or> was_reset (snd res)
   \<Longrightarrow> was_reset vm'"
  by (auto simp: after_call_def bind_eq_Some_conv split: prod.splits if_splits)


lemma fail_with_finished: "fail_with message r vm = Some (Finished res vm') \<Longrightarrow> finished_ok res vm'"
  by (auto simp: fail_with_def finished_ok_def bind_eq_Some_conv dest: runtimeError_reset)

lemma fail_with_no_dispatch: "fail_with message r vm \<noteq> Some (Dispatch vm' r')"
  by (auto simp: fail_with_def bind_eq_Some_conv)

lemma after_call_finished:
  assumes "after_call res = Some (Finished result vm')"
    and "\<not> fst res \<Longrightarrow> was_reset (snd res)"
  shows "finished_ok result vm'"
  using assms
  by (cases res) (auto simp: after_call_def finished_ok_def bind_eq_Some_conv split: if_splits)

lemma op_CONSTANT_finished: "op_CONSTANT vm r = Some (Finished res vm') \<Longrightarrow> finished_ok res vm'"
  by (auto simp: op_CONSTANT_def bind_eq_Some_conv split: if_splits prod.splits option.splits)

lemma op_push_finished: "op_push v vm r = Some (Finished res vm') \<Longrightarrow> finished_ok res vm'"
  by (auto simp: op_push_def bind_eq_Some_conv split: if_splits prod.splits option.splits)

lemma op_POP_finished: "op_POP vm r = Some (Finished res vm') \<Longrightarrow> finished_ok res vm'"
  by (auto simp: op_POP_def bind_eq_Some_conv split: if_splits prod.splits option.splits)

lemma op_GET_LOCAL_finished: "op_GET_LOCAL vm r = Some (Finished res vm') \<Longrightarrow> finished_ok res vm'"
  by (auto simp: op_GET_LOCAL_def bind_eq_Some_conv split: if_splits prod.splits option.splits)

lemma op_SET_LOCAL_finished: "op_SET_LOCAL vm r = Some (Finished res vm') \<Longrightarrow> finished_ok res vm'"
  by (auto simp: op_SET_LOCAL_def bind_eq_Some_conv split: if_splits prod.splits option.splits)

lemma op_DEFINE_GLOBAL_finished: "op_DEFINE_GLOBAL vm r = Some (Finished res vm') \<Longrightarrow> finished_ok res vm'"
  by (auto simp: op_DEFINE_GLOBAL_def bind_eq_Some_conv split: if_splits prod.splits option.splits)

lemma op_GET_UPVALUE_finished: "op_GET_UPVALUE vm r = Some (Finished res vm') \<Longrightarrow> finished_ok res vm'"
  by (auto simp: op_GET_UPVALUE_def bind_eq_Some_conv split: if_splits prod.splits option.splits)

lemma op_SET_UPVALUE_finished: "op_SET_UPVALUE vm r = Some (Finished res vm') \<Longrightarrow> finished_ok res vm'"
  by (auto simp: op_SET_UPVALUE_def bind_eq_Some_conv split: if_splits prod.splits option.splits)

lemma op_EQUAL_finished: "op_EQUAL P vm r = Some (Finished res vm') \<Longrightarrow> finished_ok res vm'"
  by (auto simp: op_EQUAL_def bind_eq_Some_conv split: if_splits prod.splits option.splits)

lemma op_NOT_finished: "op_NOT vm r = Some (Finished res vm') \<Longrightarrow> finished_ok res vm'"
  by (auto simp: op_NOT_def bind_eq_Some_conv split: if_splits prod.splits option.splits)

lemma op_PRINT_finished: "op_PRINT P vm r = Some (Finished res vm') \<Longrightarrow> finished_ok res vm'"
  by (auto simp: op_PRINT_def bind_eq_Some_conv split: if_splits prod.splits option.splits)

lemma op_JUMP_finished: "op_JUMP vm r = Some (Finished res vm') \<Longrightarrow> finished_ok res vm'"
  by (auto simp: op_JUMP_def bind_eq_Some_conv split: if_splits prod.splits option.splits)

lemma op_JUMP_IF_FALSE_finished: "op_JUMP_IF_FALSE vm r = Some (Finished res vm') \<Longrightarrow> finished_ok res vm'"
  by (auto simp: op_JUMP_IF_FALSE_def bind_eq_Some_conv split: if_splits prod.splits option.splits)

lemma op_LOOP_finished: "op_LOOP vm r = Some (Finished res vm') \<Longrightarrow> finished_ok res vm'"
  by (auto simp: op_LOOP_def bind_eq_Some_conv split: if_splits prod.splits option.splits)

lemma op_CLOSURE_finished: "op_CLOSURE vm r = Some (Finished res vm') \<Longrightarrow> finished_ok res vm'"
  by (auto simp: op_CLOSURE_def bind_eq_Some_conv split: if_splits prod.splits option.splits)

lemma op_CLOSE_UPVALUE_finished: "op_CLOSE_UPVALUE vm r = Some (Finished res vm') \<Longrightarrow> finished_ok res vm'"
  by (auto simp: op_CLOSE_UPVALUE_def bind_eq_Some_conv split: if_splits prod.splits option.splits)

lemma op_CLASS_finished: "op_CLASS vm r = Some (Finished res vm') \<Longrightarrow> finished_ok res vm'"
  by (auto simp: op_CLASS_def bind_eq_Some_conv split: if_splits prod.splits option.splits)

lemma op_METHOD_finished: "op_METHOD vm r = Some (Finished res vm') \<Longrightarrow> finished_ok res vm'"
  by (auto simp: op_METHOD_def bind_eq_Some_conv split: if_splits prod.splits option.splits)

lemma BINARY_OP_finished: "BINARY_OP f vm r = Some (Finished res vm') \<Longrightarrow> finished_ok res vm'"
  by (auto simp: BINARY_OP_def bind_eq_Some_conv dest: fail_with_finished split: if_splits prod.splits option.splits)

lemma op_GET_GLOBAL_finished: "op_GET_GLOBAL vm r = Some (Finished res vm') \<Longrightarrow> finished_ok res vm'"
  by (auto simp: op_GET_GLOBAL_def bind_eq_Some_conv dest: fail_with_finished split: if_splits prod.splits option.splits)

lemma op_SET_GLOBAL_finished: "op_SET_GLOBAL vm r = Some (Finished res vm') \<Longrightarrow> finished_ok res vm'"
  by (auto simp: op_SET_GLOBAL_def tableSet_def bind_eq_Some_conv dest: fail_with_finished
           split: if_splits prod.splits option.splits)

lemma op_SET_PROPERTY_finished: "op_SET_PROPERTY vm r = Some (Finished res vm') \<Longrightarrow> finished_ok res vm'"
  by (auto simp: op_SET_PROPERTY_def bind_eq_Some_conv dest: fail_with_finished split: if_splits prod.splits option.splits)

lemma op_ADD_finished: "op_ADD P vm r = Some (Finished res vm') \<Longrightarrow> finished_ok res vm'"
  by (auto simp: op_ADD_def bind_eq_Some_conv dest: fail_with_finished split: if_splits prod.splits option.splits)

lemma op_NEGATE_finished: "op_NEGATE P vm r = Some (Finished res vm') \<Longrightarrow> finished_ok res vm'"
  by (auto simp: op_NEGATE_def bind_eq_Some_conv dest: fail_with_finished split: if_splits prod.splits option.splits)

lemma op_INHERIT_finished: "op_INHERIT vm r = Some (Finished res vm') \<Longrightarrow> finished_ok res vm'"
  by (auto simp: op_INHERIT_def bind_eq_Some_conv dest: fail_with_finished split: if_splits prod.splits option.splits)

lemma op_GET_PROPERTY_finished: "op_GET_PROPERTY vm r = Some (Finished res vm') \<Longrightarrow> finished_ok res vm'"
  by (auto simp: op_GET_PROPERTY_def bind_eq_Some_conv finished_ok_def
           dest: fail_with_reset bindMethod_failed fail_with_finished
           split: if_splits prod.splits option.splits)

lemma op_GET_SUPER_finished: "op_GET_SUPER vm r = Some (Finished res vm') \<Longrightarrow> finished_ok res vm'"
  by (auto simp: op_GET_SUPER_def bind_eq_Some_conv finished_ok_def
           dest: bindMethod_failed split: if_splits prod.splits option.splits)

lemma op_CALL_finished:
  assumes "op_CALL P vm r = Some (Finished res vm')"
  shows "finished_ok res vm'"
proof -
  from assms obtain callee n vm1 cr where "callValue P callee n vm1 = Some cr"
      "after_call cr = Some (Finished res vm')"
    by (auto simp: op_CALL_def bind_eq_Some_conv)
  then show ?thesis
    by (cases cr) (auto intro!: after_call_finished dest: callValue_failed)
qed

lemma op_INVOKE_finished:
  assumes "op_INVOKE P vm r = Some (Finished res vm')"
  shows "finished_ok res vm'"
proof -
  from assms obtain name n vm1 cr where "invoke P name n vm1 = Some cr"
      "after_call cr = Some (Finished res vm')"
    by (auto simp: op_INVOKE_def bind_eq_Some_conv)
  then show ?thesis
    by (cases cr) (auto intro!: after_call_finished dest: invoke_failed)
qed

lemma op_SUPER_INVOKE_finished:
  assumes "op_SUPER_INVOKE vm r = Some (Finished res vm')"
  shows "finished_ok res vm'"
proof -
  from assms obtain klass name n vm1 cr where "invokeFromClass klass name n vm1 = Some cr"
      "after_call cr = Some (Finished res vm')"
    by (auto simp: op_SUPER_INVOKE_def bind_eq_Some_conv)
  then show ?thesis
    by (cases cr) (auto intro!: after_call_finished dest: invokeFromClass_failed)
qed

lemma DROP_frameCount: "DROP vm = Some vm' \<Longrightarrow> frameCount vm' = frameCount vm"
  by (auto simp: DROP_def split: if_splits)

lemma op_RETURN_finished: "op_RETURN vm r = Some (Finished res vm') \<Longrightarrow> finished_ok res vm'"
  by (auto simp: op_RETURN_def bind_eq_Some_conv finished_ok_def Let_def
           dest: DROP_frameCount split: if_splits prod.splits option.splits)

lemmas op_finished =
  op_CONSTANT_finished op_push_finished op_POP_finished op_GET_LOCAL_finished
  op_SET_LOCAL_finished op_DEFINE_GLOBAL_finished op_GET_UPVALUE_finished
  op_SET_UPVALUE_finished op_EQUAL_finished op_NOT_finished op_PRINT_finished
  op_JUMP_finished op_JUMP_IF_FALSE_finished op_LOOP_finished op_CLOSURE_finished
  op_CLOSE_UPVALUE_finished op_CLASS_finished op_METHOD_finished BINARY_OP_finished
  op_GET_GLOBAL_finished op_SET_GLOBAL_finished op_SET_PROPERTY_finished op_ADD_finished
  op_NEGATE_finished op_INHERIT_finished op_GET_PROPERTY_finished op_GET_SUPER_finished
  op_CALL_finished op_INVOKE_finished op_SUPER_INVOKE_finished op_RETURN_finished

lemma step_finished: "step P vm r = Some (Finished res vm') \<Longrightarrow> finished_ok res vm'"
proof -
  assume a: "step P vm r = Some (Finished res vm')"
  then obtain b r1 instruction where "READ_BYTE vm r = Some (b, r1)" "decode P b = Some instruction"
    by (auto simp: step_def bind_eq_Some_conv)
  with a show ?thesis
    by (cases instruction) (simp_all add: step_def op_finished)
qed

lemma run_loop_finished:
  assumes "run_loop P vm r = Some (res, vm')"
  shows "finished_ok res vm'"
proof -
  have "finished_ok (fst (res, vm')) (snd (res, vm'))"
  proof (rule run_loop.raw_induct [where Pa = "\<lambda>x y. finished_ok (fst y) (snd y)", OF _ assms])
    fix self :: "'a platform \<Rightarrow> 'a VM \<Rightarrow> regs \<Rightarrow> (InterpretResult \<times> 'a VM) option"
    fix Q vm0 r0 y
    assume IH: "\<And>Q vm r y. self Q vm r = Some y \<Longrightarrow> finished_ok (fst y) (snd y)"
      and ret: "(case step Q vm0 r0 of None \<Rightarrow> None
          | Some (Dispatch vm1 r1) \<Rightarrow> self Q vm1 r1
          | Some (Finished result vm1) \<Rightarrow> Some (result, vm1)) = Some y"
    show "finished_ok (fst y) (snd y)"
    proof (cases "step Q vm0 r0")
      case None
      with ret show ?thesis by simp
    next
      case (Some st)
      show ?thesis
      proof (cases st)
        case (Dispatch vm1 r1)
        with Some ret show ?thesis by (auto dest: IH)
      next
        case (Finished result vm1)
        with Some ret show ?thesis by (auto dest: step_finished)
      qed
    qed
  qed
  then show ?thesis by simp
qed

lemma run_finished: "run P vm = Some (res, vm') \<Longrightarrow> finished_ok res vm'"
  by (auto simp: run_def bind_eq_Some_conv dest: run_loop_finished)

lemma interpret_finished:
  "interpret_vm P source vm = Some (res, vm') \<Longrightarrow> res = INTERPRET_COMPILE_ERROR \<or> finished_ok res vm'"
  by (auto simp: interpret_vm_def bind_eq_Some_conv dest: run_finished split: prod.splits option.splits)

subsection \<open>Single instructions\<close>






lemma fail_with_result:
  assumes "STORE_FRAME r vm = Some vm1" and "stack_trace vm1 (nat (frameCount vm1)) = Some trace"
  shows "fail_with message r vm = Some (Finished INTERPRET_RUNTIME_ERROR
           (resetStack (vm1\<lparr>err := err vm1 @ message @ [CHR 0x0A] @ trace\<rparr>)))"
  using assms by (simp add: fail_with_def runtimeError_def)


lemma run_loop_finished_step:
  "step P vm r = Some (Finished res vm') \<Longrightarrow> run_loop P vm r = Some (res, vm')"
  by (subst run_loop.simps) simp

lemma STORE_FRAME_err: "STORE_FRAME r vm = Some vm1 \<Longrightarrow> err vm1 = err vm \<and> globals vm1 = globals vm"
  by (auto simp: STORE_FRAME_def split: if_splits)


section \<open>Claims about the scanner\<close>

text \<open>
  Claim C6. Every NUMBER token that begins with \<^verbatim>\<open>0x\<close> or \<^verbatim>\<open>0X\<close> is claimed to hold at
  least one hexadecimal digit after the \<^verbatim>\<open>x\<close>. On the source \<^verbatim>\<open>0x\<close> the scanner consumes
  the \<^verbatim>\<open>x\<close>, finds no digit, and still returns a NUMBER token, whose text is \<^verbatim>\<open>0x\<close>: the
  hexadecimal branch of \<^verbatim>\<open>number\<close> has no look-ahead for a digit, whereas the fractional
  branch looks for a digit behind the \<^verbatim>\<open>.\<close> before it consumes it.
\<close>

theorem hex_prefix_alone_is_number:
  "scanToken Map.empty ''0x'' initScanner
     = Some (\<lparr>token_type = TOKEN_NUMBER, token_start = InSource 0,
               token_length = 2, token_line = 1\<rparr>,
             \<lparr>start = 0, current = 2, line = 1\<rparr>)
   \<and> token_text ''0x'' \<lparr>token_type = TOKEN_NUMBER, token_start = InSource 0,
               token_length = 2, token_line = 1\<rparr> = ''0x''"
  by code_simp






text \<open>
  Claim C10. \<open>scanToken\<close> terminates on every NUL-terminated source: from every scanner state
  whose cursor is not behind the terminator, each loop of the scanner (comment skipping,
  whitespace skipping, identifier, hexadecimal and decimal digits, string body) returns
  with the cursor moved forward and not behind the terminator, and \<open>scanToken\<close> returns a
  token, again with the cursor not behind the terminator, so that the next call starts
  from such a state too.
\<close>

theorem scanToken_terminates:
  assumes "current s \<le> strlen src"
  shows "(\<exists>s'. skipComment src s = Some s' \<and> advances src s s')
       \<and> (\<exists>s'. skipWhitespace src s = Some s' \<and> advances src s s')
       \<and> (\<exists>s'. identifierLoop src s = Some s' \<and> advances src s s')
       \<and> (\<exists>s'. hexLoop src s = Some s' \<and> advances src s s')
       \<and> (\<exists>s'. digitLoop src s = Some s' \<and> advances src s s')
       \<and> (\<exists>s'. stringLoop src s = Some s' \<and> advances src s s')
       \<and> (\<exists>t s'. scanToken kw src s = Some (t, s')
                 \<and> current s \<le> current s' \<and> current s' \<le> strlen src)"
proof -
  have "scanned src s (scanToken kw src s)"
    using assms by (rule scanToken_scanned)
  then have "\<exists>t s'. scanToken kw src s = Some (t, s')
                 \<and> current s \<le> current s' \<and> current s' \<le> strlen src"
    unfolding scanned_def by blast
  then show ?thesis
    using skipComment_returns [OF assms] skipWhitespace_returns [OF assms]
      identifierLoop_returns [OF assms] hexLoop_returns [OF assms]
      digitLoop_returns [OF assms] stringLoop_returns [OF assms]
    by blast
qed

theorem scanToken_terminates_witness:
  "current initScanner \<le> strlen ''// c'' \<and>
   (\<exists>t s'. scanToken Map.empty ''// c'' initScanner = Some (t, s')
      \<and> current initScanner \<le> current s' \<and> current s' \<le> strlen ''// c'')"
  using scanToken_terminates [of initScanner "''// c''" Map.empty]
  by (simp add: initScanner_def)

section \<open>Claims about upvalues\<close>

text \<open>
  Claim C3. Let the list of open upvalues be well formed: it holds the upvalues \<open>us\<close>,
  with strictly decreasing stack slots. For every stack slot \<open>i\<close>: if an upvalue of the list
  has the location \<open>i\<close>, \<open>captureUpvalue\<close> returns the address of that very object and
  leaves the machine as it is; otherwise it returns the address of a new object, and the
  list then holds the upvalues above \<open>i\<close>, the new upvalue on \<open>i\<close>, and the upvalues below
  \<open>i\<close>, in this order, so it is again strictly decreasing and no slot has two open
  upvalues. Only the heap and the head of the list change.
\<close>

theorem captureUpvalue_shares_or_splices:
  assumes "open_upvalues_ok vm us"
  shows "(i \<in> snd ` set us \<longrightarrow>
            (\<exists>a. (a, i) \<in> set us \<and> captureUpvalue (StackSlot i) vm = Some (a, vm)))
       \<and> (i \<notin> snd ` set us \<longrightarrow>
            (\<exists>vm'. captureUpvalue (StackSlot i) vm = Some (length (heap vm), vm')
               \<and> open_upvalues_ok vm'
                    (takeWhile (slot_above i) us @ (length (heap vm), i) # dropWhile (slot_above i) us)
               \<and> distinct (map snd
                    (takeWhile (slot_above i) us @ (length (heap vm), i) # dropWhile (slot_above i) us))
               \<and> vm' = vm\<lparr>heap := heap vm', openUpvalues := openUpvalues vm'\<rparr>
               \<and> length (heap vm') = Suc (length (heap vm))))"
proof (intro conjI impI)
  assume "i \<in> snd ` set us"
  with assms show "\<exists>a. (a, i) \<in> set us \<and> captureUpvalue (StackSlot i) vm = Some (a, vm)"
    by (rule captureUpvalue_existing)
next
  let ?us' = "takeWhile (slot_above i) us @ (length (heap vm), i) # dropWhile (slot_above i) us"
  assume "i \<notin> snd ` set us"
  with assms obtain vm' where vm': "captureUpvalue (StackSlot i) vm = Some (length (heap vm), vm')"
      "open_upvalues_ok vm' ?us'"
      "vm' = vm\<lparr>heap := heap vm', openUpvalues := openUpvalues vm'\<rparr>"
      "length (heap vm') = Suc (length (heap vm))"
    using captureUpvalue_new [of vm us i] by blast
  from vm'(2) have "sorted_wrt (>) (map snd ?us')"
    by (simp add: open_upvalues_ok_def)
  then have "distinct (map snd ?us')"
    by (rule strict_desc_distinct)
  with vm' show "\<exists>vm'. captureUpvalue (StackSlot i) vm = Some (length (heap vm), vm')
               \<and> open_upvalues_ok vm' ?us' \<and> distinct (map snd ?us')
               \<and> vm' = vm\<lparr>heap := heap vm', openUpvalues := openUpvalues vm'\<rparr>
               \<and> length (heap vm') = Suc (length (heap vm))"
    by blast
qed

theorem captureUpvalue_shares_or_splices_witness:
  "open_upvalues_ok small_vm [(0, 3), (1, 1)]
   \<and> captureUpvalue (StackSlot 3) small_vm = Some (0, small_vm)
   \<and> (\<exists>vm'. captureUpvalue (StackSlot 2) small_vm = Some (2, vm')
          \<and> open_upvalues_ok vm' [(0, 3), (2, 2), (1, 1)])"
proof -
  have ok: "open_upvalues_ok small_vm [(0, 3), (1, 1)]"
    by (simp add: open_upvalues_ok_def small_vm_def)
  have len: "length (heap small_vm) = 2"
    by (simp add: small_vm_def)
  have "captureUpvalue (StackSlot 3) small_vm = Some (0, small_vm)"
    using captureUpvalue_shares_or_splices [OF ok, of 3] by auto
  moreover obtain vm' where "captureUpvalue (StackSlot 2) small_vm = Some (2, vm')"
      "open_upvalues_ok vm' [(0, 3), (2, 2), (1, 1)]"
    using captureUpvalue_shares_or_splices [OF ok, of 2]
    by (auto simp: slot_above_def len)
  ultimately show ?thesis
    using ok by blast
qed

text \<open>
  Claim C4. Let the list of open upvalues be well formed, with every location inside the
  stack array. For every stack slot \<open>x\<close>, \<open>closeUpvalues\<close> returns; afterwards the list
  holds the upvalues whose slot is below \<open>x\<close> and no other; the upvalues taken from the
  list are those whose slot is \<open>x\<close> or above, and each of them has the value of its slot
  in its \<open>closed\<close> field and the address of that field as its location. Only the heap and
  the head of the list change.
\<close>

theorem closeUpvalues_closes:
  assumes "open_upvalues_ok vm us" and "\<forall>u \<in> set us. snd u < length (stack vm)"
  shows "\<exists>vm'. closeUpvalues (StackSlot x) vm = Some vm'
      \<and> open_upvalues_ok vm' (dropWhile (slot_from x) us)
      \<and> (\<forall>u \<in> set (dropWhile (slot_from x) us). snd u < x)
      \<and> set (takeWhile (slot_from x) us) = {u \<in> set us. x \<le> snd u}
      \<and> (\<forall>u \<in> set (takeWhile (slot_from x) us).
            \<exists>nx. heap vm' ! fst u = ObjUpvalue (ClosedField (fst u)) (stack vm ! snd u) nx)
      \<and> vm' = vm\<lparr>heap := heap vm', openUpvalues := openUpvalues vm'\<rparr>"
proof -
  from assms(1) have ol: "open_list (heap vm) (openUpvalues vm) us"
    and srt: "sorted_wrt (>) (map snd us)"
    by (simp_all add: open_upvalues_ok_def)
  obtain vm' where vm': "closeUpvalues (StackSlot x) vm = Some vm'"
      "open_list (heap vm') (openUpvalues vm') (dropWhile (slot_from x) us)"
      "\<forall>u \<in> set (takeWhile (slot_from x) us).
            \<exists>nx. heap vm' ! fst u = ObjUpvalue (ClosedField (fst u)) (stack vm ! snd u) nx"
      "vm' = vm\<lparr>heap := heap vm', openUpvalues := openUpvalues vm'\<rparr>"
    using closeUpvalues_list [OF ol srt assms(2), of x] by blast
  have "sorted_wrt (>) (map snd (takeWhile (slot_from x) us @ dropWhile (slot_from x) us))"
    using srt by simp
  then have "sorted_wrt (>) (map snd (dropWhile (slot_from x) us))"
    unfolding map_append sorted_wrt_append by blast
  with vm'(2) have "open_upvalues_ok vm' (dropWhile (slot_from x) us)"
    by (simp add: open_upvalues_ok_def)
  then show ?thesis
    using vm'(1,3,4) sorted_split_from [OF srt, of x] takeWhile_from_set [OF srt, of x]
    by blast
qed

theorem closeUpvalues_closes_witness:
  "open_upvalues_ok small_vm [(0, 3), (1, 1)]
   \<and> 3 < length (stack small_vm) \<and> 1 < length (stack small_vm)
   \<and> (\<exists>vm'. closeUpvalues (StackSlot 2) small_vm = Some vm'
         \<and> open_upvalues_ok vm' [(1, 1)]
         \<and> (\<exists>nx. heap vm' ! 0 = ObjUpvalue (ClosedField 0) (NUMBER_VAL 13) nx))"
proof -
  have ok: "open_upvalues_ok small_vm [(0, 3), (1, 1)]"
    by (simp add: open_upvalues_ok_def small_vm_def)
  have inside: "\<forall>u \<in> set [(0, 3), (1, 1)]. snd u < length (stack small_vm)"
    by (simp add: small_vm_def)
  have slot: "stack small_vm ! 3 = NUMBER_VAL 13"
    by (simp add: small_vm_def)
  obtain vm' where "closeUpvalues (StackSlot 2) small_vm = Some vm'"
      "open_upvalues_ok vm' [(1, 1)]"
      "\<exists>nx. heap vm' ! 0 = ObjUpvalue (ClosedField 0) (NUMBER_VAL 13) nx"
    using closeUpvalues_closes [OF ok inside, of 2]
    by (auto simp: slot_from_def slot)
  then show ?thesis
    using ok inside by auto
qed

section \<open>Claims about the interpreter\<close>



text \<open>
  Claim C5. Let the next instruction be \<^verbatim>\<open>OP_SET_GLOBAL\<close> with the name \<open>chars\<close>, and \<open>v\<close> the
  value on top of the stack. If the name has no binding in the globals table, then (the
  frames can be printed) the instruction appends \<^verbatim>\<open>Undefined variable 'chars'.\<close> and the
  stack trace to the error stream, \<^verbatim>\<open>run\<close> returns \<^verbatim>\<open>INTERPRET_RUNTIME_ERROR\<close>, and the
  globals table is the one from before the instruction. If the name has a binding, the
  instruction changes nothing but that binding, which becomes \<open>v\<close>: the value stays on the
  stack and the loop goes on.
\<close>

theorem set_global_instruction:
  assumes "READ_BYTE vm r = Some (opcode, r1)" and "decode P opcode = Some OP_SET_GLOBAL"
    and "READ_STRING vm r1 = Some ((name, chars), r2)" and "peek_vm 0 vm = Some v"
  shows "(\<forall>vm1 trace.
            globals vm name = None \<and> STORE_FRAME r2 vm = Some vm1
            \<and> stack_trace vm1 (nat (frameCount vm1)) = Some trace \<longrightarrow>
            (\<exists>vm'. step P vm r = Some (Finished INTERPRET_RUNTIME_ERROR vm')
               \<and> run_loop P vm r = Some (INTERPRET_RUNTIME_ERROR, vm')
               \<and> globals vm' = globals vm
               \<and> err vm' = err vm @ ''Undefined variable '' @ [CHR 0x27] @ chars @ [CHR 0x27]
                              @ ''.'' @ [CHR 0x0A] @ trace))
       \<and> (\<forall>old. globals vm name = Some old \<longrightarrow>
            step P vm r = Some (Dispatch (vm\<lparr>globals := (globals vm)(name \<mapsto> v)\<rparr>) r2))"
proof -
  have st: "step P vm r = op_SET_GLOBAL vm r1"
    using assms(1,2) by (simp add: step_def)
  show ?thesis
  proof (intro conjI allI impI)
    fix vm1 trace
    let ?message = "''Undefined variable '' @ [CHR 0x27] @ chars @ [CHR 0x27] @ ''.''"
    assume h: "globals vm name = None \<and> STORE_FRAME r2 vm = Some vm1
            \<and> stack_trace vm1 (nat (frameCount vm1)) = Some trace"
    then have undo: "tableDelete (fst (tableSet (globals vm) name v)) name = globals vm"
      by (auto simp: tableDelete_def tableSet_def)
    have "op_SET_GLOBAL vm r1 = fail_with ?message r2 (vm\<lparr>globals := globals vm\<rparr>)"
      using h undo by (simp add: op_SET_GLOBAL_def assms(3,4) tableSet_def tableDelete_def)
    then have "op_SET_GLOBAL vm r1 = fail_with ?message r2 vm"
      by simp
    then have fin: "step P vm r = Some (Finished INTERPRET_RUNTIME_ERROR
                 (resetStack (vm1\<lparr>err := err vm1 @ ?message @ [CHR 0x0A] @ trace\<rparr>)))"
      unfolding st using h fail_with_result [of r2 vm vm1 trace ?message] by simp
    moreover from fin have "run_loop P vm r = Some (INTERPRET_RUNTIME_ERROR,
                 resetStack (vm1\<lparr>err := err vm1 @ ?message @ [CHR 0x0A] @ trace\<rparr>))"
      by (rule run_loop_finished_step)
    moreover have "err vm1 = err vm" "globals vm1 = globals vm"
      using h STORE_FRAME_err by blast+
    ultimately show "\<exists>vm'. step P vm r = Some (Finished INTERPRET_RUNTIME_ERROR vm')
               \<and> run_loop P vm r = Some (INTERPRET_RUNTIME_ERROR, vm')
               \<and> globals vm' = globals vm
               \<and> err vm' = err vm @ ''Undefined variable '' @ [CHR 0x27] @ chars @ [CHR 0x27]
                              @ ''.'' @ [CHR 0x0A] @ trace"
      by (simp add: resetStack_def)
  next
    fix old
    assume "globals vm name = Some old"
    then show "step P vm r = Some (Dispatch (vm\<lparr>globals := (globals vm)(name \<mapsto> v)\<rparr>) r2)"
      unfolding st by (simp add: op_SET_GLOBAL_def assms(3,4) tableSet_def)
  qed
qed

theorem set_global_instruction_witness:
  "READ_BYTE (script_vm [9, 0] [OBJ_VAL 2] [ObjString ''a''] 0 [NUMBER_VAL 5]) (script_regs 0)
      = Some (9, script_regs 1)
   \<and> decode small_platform 9 = Some OP_SET_GLOBAL
   \<and> READ_STRING (script_vm [9, 0] [OBJ_VAL 2] [ObjString ''a''] 0 [NUMBER_VAL 5]) (script_regs 1)
      = Some ((2, ''a''), script_regs 2)
   \<and> peek_vm 0 (script_vm [9, 0] [OBJ_VAL 2] [ObjString ''a''] 0 [NUMBER_VAL 5]) = Some (NUMBER_VAL 5)
   \<and> (\<exists>vm'. run_loop small_platform
                (script_vm [9, 0] [OBJ_VAL 2] [ObjString ''a''] 0 [NUMBER_VAL 5]) (script_regs 0)
              = Some (INTERPRET_RUNTIME_ERROR, vm')
         \<and> globals vm' = globals (script_vm [9, 0] [OBJ_VAL 2] [ObjString ''a''] 0 [NUMBER_VAL 5])
         \<and> err vm' = ''Undefined variable '' @ [CHR 0x27] @ ''a'' @ [CHR 0x27] @ ''.'' @ [CHR 0x0A]
                      @ ''[line 1] in script'' @ [CHR 0x0A])
   \<and> step small_platform
        ((script_vm [9, 0] [OBJ_VAL 2] [ObjString ''a''] 0 [NUMBER_VAL 5])\<lparr>globals := [2 \<mapsto> NIL_VAL]\<rparr>)
        (script_regs 0)
      = Some (Dispatch
          ((script_vm [9, 0] [OBJ_VAL 2] [ObjString ''a''] 0 [NUMBER_VAL 5])
             \<lparr>globals := [2 \<mapsto> NUMBER_VAL 5]\<rparr>) (script_regs 2))"
proof -
  let ?u = "script_vm [9, 0] [OBJ_VAL 2] [ObjString ''a''] 0 [NUMBER_VAL 5]"
  let ?u1 = "?u\<lparr>frames := (frames ?u)[0 := (frames ?u ! 0)\<lparr>ip := 2\<rparr>]\<rparr>"
  let ?d = "?u\<lparr>globals := [2 \<mapsto> NIL_VAL]\<rparr>"
  have dec: "decode small_platform 9 = Some OP_SET_GLOBAL"
    by code_simp
  have u1: "READ_BYTE ?u (script_regs 0) = Some (9, script_regs 1)"
    and u2: "READ_STRING ?u (script_regs 1) = Some ((2, ''a''), script_regs 2)"
    and u3: "peek_vm 0 ?u = Some (NUMBER_VAL 5)"
    by code_simp+
  have u4: "globals ?u 2 = None" "err ?u = []"
    by (simp_all add: script_vm_def)
  have u5: "STORE_FRAME (script_regs 2) ?u = Some ?u1"
    by (simp add: STORE_FRAME_def script_regs_def script_vm_def)
  have u6: "stack_trace ?u1 (nat (frameCount ?u1)) = Some (''[line 1] in script'' @ [CHR 0x0A])"
    by code_simp
  have undefined_name: "\<exists>vm'. run_loop small_platform ?u (script_regs 0) = Some (INTERPRET_RUNTIME_ERROR, vm')
         \<and> globals vm' = globals ?u
         \<and> err vm' = ''Undefined variable '' @ [CHR 0x27] @ ''a'' @ [CHR 0x27] @ ''.'' @ [CHR 0x0A]
                      @ ''[line 1] in script'' @ [CHR 0x0A]"
    using set_global_instruction [OF u1 dec u2 u3] u4 u5 u6 by fastforce
  have d1: "READ_BYTE ?d (script_regs 0) = Some (9, script_regs 1)"
    and d2: "READ_STRING ?d (script_regs 1) = Some ((2, ''a''), script_regs 2)"
    and d3: "peek_vm 0 ?d = Some (NUMBER_VAL 5)"
    by code_simp+
  have d4: "globals ?d 2 = Some NIL_VAL"
    by simp
  have "step small_platform ?d (script_regs 0)
      = Some (Dispatch (?d\<lparr>globals := (globals ?d)(2 \<mapsto> NUMBER_VAL 5)\<rparr>) (script_regs 2))"
    using set_global_instruction [OF d1 dec d2 d3] d4 by blast
  then have defined_name: "step small_platform ?d (script_regs 0)
      = Some (Dispatch (?u\<lparr>globals := [2 \<mapsto> NUMBER_VAL 5]\<rparr>) (script_regs 2))"
    by simp
  show ?thesis
    using dec u1 u2 u3 undefined_name defined_name by blast
qed


text \<open>
  Claim C9. \<^verbatim>\<open>runtimeError\<close> leaves the machine without open upvalues, with an empty
  stack and without frames; and whenever an instruction of the dispatch loop, \<^verbatim>\<open>run\<close>
  or \<^verbatim>\<open>interpret\<close> returns \<^verbatim>\<open>INTERPRET_RUNTIME_ERROR\<close>, the machine is in that state: the
  list of open upvalues is empty, \<open>stackTop\<close> is the bottom of the stack and
  \<open>frameCount\<close> is 0.
\<close>

theorem runtime_error_resets_upvalues:
  "(runtimeError message vm = Some vm1 \<longrightarrow>
      openUpvalues vm1 = None \<and> stackTop vm1 = 0 \<and> frameCount vm1 = 0)
   \<and> (step P vm r = Some (Finished INTERPRET_RUNTIME_ERROR vm2) \<longrightarrow>
      openUpvalues vm2 = None \<and> stackTop vm2 = 0 \<and> frameCount vm2 = 0)
   \<and> (run P vm = Some (INTERPRET_RUNTIME_ERROR, vm3) \<longrightarrow>
      openUpvalues vm3 = None \<and> stackTop vm3 = 0 \<and> frameCount vm3 = 0)
   \<and> (interpret_vm P source vm = Some (INTERPRET_RUNTIME_ERROR, vm4) \<longrightarrow>
      openUpvalues vm4 = None \<and> stackTop vm4 = 0 \<and> frameCount vm4 = 0)"
proof (intro conjI impI)
  assume "runtimeError message vm = Some vm1"
  then have "was_reset vm1" by (rule runtimeError_reset)
  then show "openUpvalues vm1 = None" "stackTop vm1 = 0" "frameCount vm1 = 0"
    by (simp_all add: was_reset_def)
next
  assume "step P vm r = Some (Finished INTERPRET_RUNTIME_ERROR vm2)"
  then have "finished_ok INTERPRET_RUNTIME_ERROR vm2" by (rule step_finished)
  then show "openUpvalues vm2 = None" "stackTop vm2 = 0" "frameCount vm2 = 0"
    by (simp_all add: finished_ok_def was_reset_def)
next
  assume "run P vm = Some (INTERPRET_RUNTIME_ERROR, vm3)"
  then have "finished_ok INTERPRET_RUNTIME_ERROR vm3" by (rule run_finished)
  then show "openUpvalues vm3 = None" "stackTop vm3 = 0" "frameCount vm3 = 0"
    by (simp_all add: finished_ok_def was_reset_def)
next
  assume "interpret_vm P source vm = Some (INTERPRET_RUNTIME_ERROR, vm4)"
  then have "finished_ok INTERPRET_RUNTIME_ERROR vm4"
    using interpret_finished by blast
  then show "openUpvalues vm4 = None" "stackTop vm4 = 0" "frameCount vm4 = 0"
    by (simp_all add: finished_ok_def was_reset_def)
qed

theorem runtime_error_resets_upvalues_witness:
  "openUpvalues ((script_vm [5, 0, 1, 23] [] [ObjUpvalue (StackSlot 0) NIL_VAL None] 0 [])
                   \<lparr>openUpvalues := Some 2\<rparr>) = Some 2
   \<and> (\<exists>vm'. run small_platform
               ((script_vm [5, 0, 1, 23] [] [ObjUpvalue (StackSlot 0) NIL_VAL None] 0 [])
                   \<lparr>openUpvalues := Some 2\<rparr>) = Some (INTERPRET_RUNTIME_ERROR, vm')
         \<and> openUpvalues vm' = None \<and> stackTop vm' = 0 \<and> frameCount vm' = 0)"
proof -
  let ?vm = "(script_vm [5, 0, 1, 23] [] [ObjUpvalue (StackSlot 0) NIL_VAL None] 0 [])
                   \<lparr>openUpvalues := Some 2\<rparr>"
  have "map_option fst (run small_platform ?vm) = Some INTERPRET_RUNTIME_ERROR"
    by code_simp
  then obtain vm' where ret: "run small_platform ?vm = Some (INTERPRET_RUNTIME_ERROR, vm')"
    by (cases "run small_platform ?vm") auto
  then have "openUpvalues vm' = None \<and> stackTop vm' = 0 \<and> frameCount vm' = 0"
    using runtime_error_resets_upvalues [of _ ?vm _ small_platform _ _ vm'] by blast
  with ret show ?thesis
    by simp
qed

end
